theory Spec2Isabelle
  imports Main
begin

section \<open>The library catalogue server (src/index.js)\<close>

text \<open>
  The resolvers of \<^verbatim>\<open>src/index.js\<close> (and of its older copy
  \<^verbatim>\<open>src/unnamed/part_000\<close>, whose resolvers are the same statements laid out on
  more lines) are embedded as functions on an explicit server state: the three
  collections of the document store and the registry of the in-process PubSub.
  Every \<^verbatim>\<open>throw\<close> is a value \<open>Inl e\<close>; a resolver that writes returns the new state
  next to its result, so that a failure after a write keeps the write, as the code does.
\<close>

subsection \<open>Documents\<close>

text \<open>
  An ObjectId is a natural number. The three document types carry the fields the
  resolvers and the GraphQL type definitions name; \<open>born\<close> is optional (\<^verbatim>\<open>born: Int\<close>).
\<close>

type_synonym ObjectId = nat

record user =
  u_id :: ObjectId
  u_username :: string
  u_favoriteGenre :: string

record author =
  a_id :: ObjectId
  a_name :: string
  a_born :: "int option"

record book =
  b_id :: ObjectId
  b_title :: string
  b_published :: int
  b_author :: ObjectId
  b_genres :: "string list"

text \<open>A book after \<^verbatim>\<open>populate('author')\<close>: the reference is replaced by the Author
  document with that id, or by null (\<open>None\<close>) when no such document is stored.\<close>

record populated_book =
  pb_id :: ObjectId
  pb_title :: string
  pb_published :: int
  pb_author :: "author option"
  pb_genres :: "string list"

record store =
  users :: "user list"
  authors :: "author list"
  books :: "book list"

datatype error =
    GraphQLError string string
  | ValidationError
  | JsonWebTokenError string
  | TokenExpiredError
  | SignError string

subsection \<open>The document store\<close>

text \<open>
  \<^verbatim>\<open>Model.findOne(filter)\<close> returns the first stored document that matches, or null.
  \<^verbatim>\<open>Model.findById(id)\<close> is \<^verbatim>\<open>findOne({_id: id})\<close>.
\<close>

definition Author_findOne_name :: "store \<Rightarrow> string \<Rightarrow> author option" where
  "Author_findOne_name db n = find (\<lambda>a. a_name a = n) (authors db)"

definition Author_findById :: "store \<Rightarrow> ObjectId \<Rightarrow> author option" where
  "Author_findById db i = find (\<lambda>a. a_id a = i) (authors db)"

definition User_findOne_username :: "store \<Rightarrow> string \<Rightarrow> user option" where
  "User_findOne_username db n = find (\<lambda>u. u_username u = n) (users db)"

definition User_findById :: "store \<Rightarrow> ObjectId \<Rightarrow> user option" where
  "User_findById db i = find (\<lambda>u. u_id u = i) (users db)"

text \<open>
  \<^verbatim>\<open>new Author(...)\<close> and \<^verbatim>\<open>new Book(...)\<close> draw a new ObjectId. The driver's generator
  is modelled by the least number above every id in the store; the only property of it
  that is used is that no stored document has that id.
\<close>

definition all_ids :: "store \<Rightarrow> ObjectId list" where
  "all_ids db = map u_id (users db) @ map a_id (authors db) @ map b_id (books db)"

definition new_ObjectId :: "store \<Rightarrow> ObjectId" where
  "new_ObjectId db = Suc (foldr max (all_ids db) 0)"

text \<open>
  The schemas of \<^verbatim>\<open>./models/book\<close>, \<^verbatim>\<open>./models/author\<close> and \<^verbatim>\<open>./models/user\<close> are
  required by the source but are not part of it. What they decide is whether
  \<^verbatim>\<open>save()\<close> accepts a document (validators, unique indexes); the resolvers take that
  decision as a parameter: one predicate for each kind of save the resolvers perform,
  given the store contents at the time of the save.
\<close>

record models =
  author_insert :: "store \<Rightarrow> author \<Rightarrow> bool"
  author_update :: "store \<Rightarrow> author \<Rightarrow> bool"
  book_insert :: "store \<Rightarrow> book \<Rightarrow> bool"
  user_insert :: "store \<Rightarrow> user \<Rightarrow> bool"

text \<open>\<^verbatim>\<open>doc.save()\<close> of a modified stored document writes it over the stored
  document with the same \<^verbatim>\<open>_id\<close> (\<^verbatim>\<open>updateOne({_id})\<close>: the first such document).\<close>

fun replace_author :: "author \<Rightarrow> author list \<Rightarrow> author list" where
  "replace_author a' [] = []"
| "replace_author a' (a # as) =
     (if a_id a = a_id a' then a' # as else a # replace_author a' as)"

subsection \<open>The PubSub\<close>

text \<open>
  \<^verbatim>\<open>const pubsub = new PubSub()\<close> is the in-process event bus of the package
  graphql-subscriptions, which is not part of the repository.

  Modelled from the spec: the PubSub of section 4.4. The registry holds one entry for
  each subscriber handle, with the topic it listens to and its own queue of payloads not
  yet consumed. \<open>publish\<close> hands the payload to every handle registered for the topic at
  that moment, at the end of its queue, and drops it when there is none; \<open>asyncIterator\<close>
  registers a new handle whose queue starts empty. A handle is the position of its entry.
\<close>

datatype payload = BookAdded populated_book

record subscriber =
  s_topic :: string
  s_queue :: "payload list"

type_synonym pubsub = "subscriber list"

definition publish :: "string \<Rightarrow> payload \<Rightarrow> pubsub \<Rightarrow> pubsub" where
  "publish topic p bus =
     map (\<lambda>s. if s_topic s = topic then s\<lparr>s_queue := s_queue s @ [p]\<rparr> else s) bus"

definition asyncIterator :: "string \<Rightarrow> pubsub \<Rightarrow> nat \<times> pubsub" where
  "asyncIterator topic bus = (length bus, bus @ [\<lparr>s_topic = topic, s_queue = []\<rparr>])"

text \<open>What the subscriber with handle \<open>h\<close> has been sent so far.\<close>

definition received :: "pubsub \<Rightarrow> nat \<Rightarrow> payload list" where
  "received bus h = (if h < length bus then s_queue (bus ! h) else [])"

record server =
  srv_db :: store
  srv_bus :: pubsub

subsection \<open>Mutation.addBook\<close>

record addBook_args =
  ab_title :: string
  ab_published :: int
  ab_author :: string
  ab_genres :: "string list"

text \<open>The request context is \<^verbatim>\<open>{ currentUser }\<close> or \<^verbatim>\<open>{}\<close>; \<^verbatim>\<open>!context.currentUser\<close>
  holds for undefined and for null alike, so the context is the user, if any.\<close>

type_synonym ctx = "user option"

definition new_Author :: "store \<Rightarrow> string \<Rightarrow> author" where
  "new_Author db n = \<lparr>a_id = new_ObjectId db, a_name = n, a_born = None\<rparr>"

definition new_Book :: "store \<Rightarrow> addBook_args \<Rightarrow> ObjectId \<Rightarrow> book" where
  "new_Book db args aid =
     \<lparr>b_id = new_ObjectId db, b_title = ab_title args, b_published = ab_published args,
      b_author = aid, b_genres = ab_genres args\<rparr>"

definition populate :: "store \<Rightarrow> book \<Rightarrow> populated_book" where
  "populate db b =
     \<lparr>pb_id = b_id b, pb_title = b_title b, pb_published = b_published b,
      pb_author = Author_findById db (b_author b), pb_genres = b_genres b\<rparr>"

text \<open>Lines 86-90: find the author by name, or create and save it.\<close>

definition find_or_create_author ::
    "models \<Rightarrow> store \<Rightarrow> string \<Rightarrow> (error + author) \<times> store" where
  "find_or_create_author M d n =
     (case Author_findOne_name d n of
        Some a \<Rightarrow> (Inr a, d)
      | None \<Rightarrow>
          (let a = new_Author d n in
           if author_insert M d a then (Inr a, d\<lparr>authors := authors d @ [a]\<rparr>)
           else (Inl ValidationError, d)))"

definition addBook :: "models \<Rightarrow> server \<Rightarrow> addBook_args \<Rightarrow> ctx \<Rightarrow> (error + populated_book) \<times> server" where
  "addBook M s args context =
     (case context of
        None \<Rightarrow> (Inl (GraphQLError ''not authenticated'' ''UNAUTHENTICATED''), s)
      | Some currentUser \<Rightarrow>
          (case find_or_create_author M (srv_db s) (ab_author args) of
             (Inl e, d1) \<Rightarrow> (Inl e, s\<lparr>srv_db := d1\<rparr>)
           | (Inr a, d1) \<Rightarrow>
               (let b = new_Book d1 args (a_id a) in
                if \<not> book_insert M d1 b then (Inl ValidationError, s\<lparr>srv_db := d1\<rparr>)
                else
                  (let d2 = d1\<lparr>books := books d1 @ [b]\<rparr>;
                       populatedBook = populate d2 b
                   in (Inr populatedBook,
                       \<lparr>srv_db = d2,
                        srv_bus = publish ''BOOK_ADDED'' (BookAdded populatedBook) (srv_bus s)\<rparr>)))))"

text \<open>A sequence of addBook calls, one after the other, each on the state the previous
  one left; the results are kept in call order.\<close>

fun addBooks ::
    "models \<Rightarrow> server \<Rightarrow> (addBook_args \<times> ctx) list \<Rightarrow> (error + populated_book) list \<times> server" where
  "addBooks M s [] = ([], s)"
| "addBooks M s (c # cs) =
     (case addBook M s (fst c) (snd c) of
        (r, s1) \<Rightarrow> (case addBooks M s1 cs of (rs, s2) \<Rightarrow> (r # rs, s2)))"

subsection \<open>Subscription.bookAdded\<close>

text \<open>\<^verbatim>\<open>subscribe: () => pubsub.asyncIterator('BOOK_ADDED')\<close>. The value sent to the client for
  a payload is its \<^verbatim>\<open>bookAdded\<close> field (the default field resolver).\<close>

definition bookAdded_subscribe :: "server \<Rightarrow> nat \<times> server" where
  "bookAdded_subscribe s =
     (case asyncIterator ''BOOK_ADDED'' (srv_bus s) of (h, bus') \<Rightarrow> (h, s\<lparr>srv_bus := bus'\<rparr>))"

fun bookAdded_of :: "payload \<Rightarrow> populated_book" where
  "bookAdded_of (BookAdded pb) = pb"

definition notifications :: "server \<Rightarrow> nat \<Rightarrow> populated_book list" where
  "notifications s h = map bookAdded_of (received (srv_bus s) h)"

text \<open>The books that the successful calls of a sequence returned, in call order.\<close>

fun returned_books :: "(error + populated_book) list \<Rightarrow> populated_book list" where
  "returned_books [] = []"
| "returned_books (Inr pb # rs) = pb # returned_books rs"
| "returned_books (Inl e # rs) = returned_books rs"

subsection \<open>Mutation.editAuthor and Mutation.createUser\<close>

record editAuthor_args =
  ea_name :: string
  ea_setBornTo :: int

definition editAuthor ::
    "models \<Rightarrow> store \<Rightarrow> editAuthor_args \<Rightarrow> ctx \<Rightarrow> (error + author option) \<times> store" where
  "editAuthor M d args context =
     (case context of
        None \<Rightarrow> (Inl (GraphQLError ''not authenticated'' ''UNAUTHENTICATED''), d)
      | Some currentUser \<Rightarrow>
          (case Author_findOne_name d (ea_name args) of
             None \<Rightarrow> (Inr None, d)
           | Some a \<Rightarrow>
               (let a' = a\<lparr>a_born := Some (ea_setBornTo args)\<rparr> in
                if author_update M d a'
                then (Inr (Some a'), d\<lparr>authors := replace_author a' (authors d)\<rparr>)
                else (Inl ValidationError, d))))"

record createUser_args =
  cu_username :: string
  cu_favoriteGenre :: string

definition createUser :: "models \<Rightarrow> store \<Rightarrow> createUser_args \<Rightarrow> (error + user) \<times> store" where
  "createUser M d args =
     (let u = \<lparr>u_id = new_ObjectId d, u_username = cu_username args,
               u_favoriteGenre = cu_favoriteGenre args\<rparr>
      in if user_insert M d u then (Inr u, d\<lparr>users := users d @ [u]\<rparr>)
         else (Inl ValidationError, d))"

subsection \<open>Tokens\<close>

text \<open>
  \<^verbatim>\<open>jwt.sign\<close> and \<^verbatim>\<open>jwt.verify\<close> belong to the package jsonwebtoken, which is not part
  of the repository. A signed token is modelled by its claims and the key it was signed
  under (an ideal signature: it verifies under that key and no other). Time is in seconds.

  \<^verbatim>\<open>jwt.sign(payload, secret, options)\<close> refuses a missing or empty secret; it stamps the
  claims with the issue time \<open>iat\<close>, and with an expiry \<open>exp\<close> only when the caller passes
  \<^verbatim>\<open>options.expiresIn\<close>. \<^verbatim>\<open>jwt.verify(token, secret)\<close> refuses an empty or malformed token
  string, a missing secret, a signature under another key, and a token whose \<open>exp\<close>
  claim is present and not after the current time; otherwise it returns the claims.
\<close>

record jwt_claims =
  jc_username :: string
  jc_id :: ObjectId
  jc_iat :: nat
  jc_exp :: "nat option"

record jwt =
  jwt_claims_of :: jwt_claims
  jwt_key :: string

definition jwt_sign ::
    "string \<times> ObjectId \<Rightarrow> string option \<Rightarrow> nat option \<Rightarrow> nat \<Rightarrow> error + jwt" where
  "jwt_sign userForToken secret expiresIn now =
     (case secret of
        None \<Rightarrow> Inl (SignError ''secretOrPrivateKey must have a value'')
      | Some k \<Rightarrow>
          if k = [] then Inl (SignError ''secretOrPrivateKey must have a value'')
          else Inr \<lparr>jwt_claims_of =
                      \<lparr>jc_username = fst userForToken, jc_id = snd userForToken, jc_iat = now,
                       jc_exp = map_option (\<lambda>d. now + d) expiresIn\<rparr>,
                    jwt_key = k\<rparr>)"

definition jwt_verify_token :: "jwt \<Rightarrow> string option \<Rightarrow> nat \<Rightarrow> error + jwt_claims" where
  "jwt_verify_token t secret now =
     (case secret of
        None \<Rightarrow> Inl (JsonWebTokenError ''secret or public key must be provided'')
      | Some k \<Rightarrow>
          if k = [] then Inl (JsonWebTokenError ''secret or public key must be provided'')
          else if jwt_key t \<noteq> k then Inl (JsonWebTokenError ''invalid signature'')
          else (case jc_exp (jwt_claims_of t) of
                  None \<Rightarrow> Inr (jwt_claims_of t)
                | Some e \<Rightarrow> if e \<le> now then Inl TokenExpiredError else Inr (jwt_claims_of t)))"

text \<open>The token travels as a string; \<open>decode\<close> reads a token string back (None when it
  is not the serialisation of a token) and is a parameter of the model.\<close>

definition jwt_verify ::
    "(string \<Rightarrow> jwt option) \<Rightarrow> string \<Rightarrow> string option \<Rightarrow> nat \<Rightarrow> error + jwt_claims" where
  "jwt_verify decode tok secret now =
     (if tok = [] then Inl (JsonWebTokenError ''jwt must be provided'')
      else (case decode tok of
              None \<Rightarrow> Inl (JsonWebTokenError ''jwt malformed'')
            | Some t \<Rightarrow> jwt_verify_token t secret now))"

subsection \<open>Mutation.login\<close>

record login_args =
  lg_username :: string
  lg_password :: string

record token =
  t_value :: jwt

text \<open>\<open>JWT_SECRET\<close> is \<^verbatim>\<open>process.env.JWT_SECRET\<close>: None when the variable is not set.
  \<open>now\<close> is the clock at the call. The call passes no options to \<^verbatim>\<open>jwt.sign\<close>.\<close>

definition login :: "string option \<Rightarrow> nat \<Rightarrow> store \<Rightarrow> login_args \<Rightarrow> error + token" where
  "login JWT_SECRET now d args =
     (let user = User_findOne_username d (lg_username args);
          passwordCorrect = (lg_password args = ''secret'')
      in case user of
           None \<Rightarrow> Inl (GraphQLError ''wrong credentials'' ''BAD_USER_INPUT'')
         | Some u \<Rightarrow>
             if \<not> passwordCorrect then Inl (GraphQLError ''wrong credentials'' ''BAD_USER_INPUT'')
             else (case jwt_sign (u_username u, u_id u) JWT_SECRET None now of
                     Inl e \<Rightarrow> Inl e
                   | Inr t \<Rightarrow> Inr \<lparr>t_value = t\<rparr>))"

subsection \<open>The request context\<close>

text \<open>
  The \<^verbatim>\<open>context\<close> function of \<^verbatim>\<open>expressMiddleware\<close> (lines 192-202). The header is absent
  (None) or a string. Next to its result the model returns the calls the function made
  to \<^verbatim>\<open>jwt.verify\<close> and to \<^verbatim>\<open>User.findById\<close>, in order, so that a statement can say that
  none was made.
\<close>

datatype call = Call_jwt_verify string | Call_User_findById ObjectId

definition startsWith :: "string \<Rightarrow> string \<Rightarrow> bool" where
  "startsWith s p = (take (length p) s = p)"

definition substring :: "string \<Rightarrow> nat \<Rightarrow> string" where
  "substring s n = drop n s"

definition http_context ::
    "(string \<Rightarrow> jwt option) \<Rightarrow> string option \<Rightarrow> nat \<Rightarrow> store \<Rightarrow> string option
       \<Rightarrow> (error + ctx) \<times> call list" where
  "http_context decode JWT_SECRET now d authorization =
     (case authorization of
        None \<Rightarrow> (Inr None, [])
      | Some auth \<Rightarrow>
          if auth \<noteq> [] \<and> startsWith auth ''Bearer '' then
            (case jwt_verify decode (substring auth 7) JWT_SECRET now of
               Inl e \<Rightarrow> (Inl e, [Call_jwt_verify (substring auth 7)])
             | Inr decodedToken \<Rightarrow>
                 (Inr (User_findById d (jc_id decodedToken)),
                  [Call_jwt_verify (substring auth 7), Call_User_findById (jc_id decodedToken)]))
          else (Inr None, []))"

subsection \<open>Query.allBooks\<close>

text \<open>The arguments are nullable strings; \<^verbatim>\<open>if (args.author)\<close> and \<^verbatim>\<open>if (args.genre)\<close>
  test truthiness, which the empty string does not have.\<close>

record allBooks_args =
  al_author :: "string option"
  al_genre :: "string option"

definition truthy :: "string option \<Rightarrow> bool" where
  "truthy x = (case x of None \<Rightarrow> False | Some s \<Rightarrow> s \<noteq> [])"

text \<open>The filter object: \<^verbatim>\<open>author\<close> (an id to equal) and \<^verbatim>\<open>genres: { $in: [...] }\<close> (the
  genres array has an element among the listed values); an absent key constrains nothing.\<close>

record book_filter =
  f_author :: "ObjectId option"
  f_genres_in :: "string list option"

definition matches :: "book_filter \<Rightarrow> book \<Rightarrow> bool" where
  "matches f b =
     ((case f_author f of None \<Rightarrow> True | Some i \<Rightarrow> b_author b = i) \<and>
      (case f_genres_in f of None \<Rightarrow> True | Some gs \<Rightarrow> list_ex (\<lambda>g. g \<in> set gs) (b_genres b)))"

definition Book_find :: "store \<Rightarrow> book_filter \<Rightarrow> book list" where
  "Book_find d f = filter (matches f) (books d)"

text \<open>Lines 131-135: the author argument, when truthy, is resolved to an id; None stands
  for the early \<^verbatim>\<open>return []\<close>. Line 136: the genre argument, when truthy, is added.\<close>

definition author_step :: "store \<Rightarrow> allBooks_args \<Rightarrow> book_filter \<Rightarrow> book_filter option" where
  "author_step d args f =
     (case al_author args of
        None \<Rightarrow> Some f
      | Some n \<Rightarrow>
          if \<not> truthy (Some n) then Some f
          else (case Author_findOne_name d n of
                  None \<Rightarrow> None
                | Some a \<Rightarrow> Some (f\<lparr>f_author := Some (a_id a)\<rparr>)))"

definition genre_step :: "allBooks_args \<Rightarrow> book_filter \<Rightarrow> book_filter" where
  "genre_step args f =
     (case al_genre args of
        None \<Rightarrow> f
      | Some g \<Rightarrow> if truthy (Some g) then f\<lparr>f_genres_in := Some [g]\<rparr> else f)"

definition allBooks :: "store \<Rightarrow> allBooks_args \<Rightarrow> populated_book list" where
  "allBooks d args =
     (case author_step d args \<lparr>f_author = None, f_genres_in = None\<rparr> of
        None \<Rightarrow> []
      | Some f \<Rightarrow> map (populate d) (Book_find d (genre_step args f)))"

subsection \<open>Query.allAuthors\<close>

text \<open>The aggregation pipeline, stage by stage: \<^verbatim>\<open>$lookup\<close> joins to each author the
  books whose \<^verbatim>\<open>author\<close> equals its \<^verbatim>\<open>_id\<close>, \<^verbatim>\<open>$addFields\<close> adds the size of that array
  as \<^verbatim>\<open>bookCount\<close>, \<^verbatim>\<open>$project\<close> removes the array.\<close>

record author_row =
  r_id :: ObjectId
  r_name :: string
  r_born :: "int option"
  r_books :: "book list option"
  r_bookCount :: "nat option"

definition from_author :: "author \<Rightarrow> author_row" where
  "from_author a =
     \<lparr>r_id = a_id a, r_name = a_name a, r_born = a_born a, r_books = None, r_bookCount = None\<rparr>"

definition lookup_books :: "store \<Rightarrow> author_row \<Rightarrow> author_row" where
  "lookup_books d r = r\<lparr>r_books := Some (filter (\<lambda>b. b_author b = r_id r) (books d))\<rparr>"

definition addFields_bookCount :: "author_row \<Rightarrow> author_row" where
  "addFields_bookCount r = r\<lparr>r_bookCount := map_option length (r_books r)\<rparr>"

definition project_books_0 :: "author_row \<Rightarrow> author_row" where
  "project_books_0 r = r\<lparr>r_books := None\<rparr>"

definition allAuthors :: "store \<Rightarrow> author_row list" where
  "allAuthors d =
     map project_books_0 (map addFields_bookCount (map (lookup_books d) (map from_author (authors d))))"

subsection \<open>Well-formed stores and a reference schema\<close>

text \<open>The store keeps \<^verbatim>\<open>_id\<close> unique within a collection, and no resolver deletes an
  author, so every book's reference is the id of a stored author.\<close>

definition wf_store :: "store \<Rightarrow> bool" where
  "wf_store d =
     (distinct (map a_id (authors d)) \<and>
      list_all (\<lambda>b. Author_findById d (b_author b) \<noteq> None) (books d))"

text \<open>
  Modelled from the spec: the schemas of \<^verbatim>\<open>./models/author\<close>, \<^verbatim>\<open>./models/book\<close> and
  \<^verbatim>\<open>./models/user\<close>, as section 3 gives them: an author's name is required and not
  unique, a user's username is required and unique, its favoriteGenre is required, and
  nothing constrains a book. A required string is one that is not empty.
\<close>

definition spec_models :: models where
  "spec_models =
     \<lparr>author_insert = (\<lambda>d a. a_name a \<noteq> []),
      author_update = (\<lambda>d a. a_name a \<noteq> []),
      book_insert = (\<lambda>d b. True),
      user_insert = (\<lambda>d u. u_username u \<noteq> [] \<and> u_favoriteGenre u \<noteq> [] \<and>
                             User_findOne_username d (u_username u) = None)\<rparr>"

text \<open>
  The arguments of an addBook call are valid for a store when the schemas accept the
  documents the call has to save. When a stored author has the given name, that is the
  new book, referring to the first such author. When none has, it is the new author of
  that name, and then the new book referring to it, against the store that holds it.
  The predicate is stated on the schemas and the store contents alone.
\<close>

definition addBook_valid :: "models \<Rightarrow> store \<Rightarrow> addBook_args \<Rightarrow> bool" where
  "addBook_valid M d args =
     (case find (\<lambda>x. a_name x = ab_author args) (authors d) of
        Some a \<Rightarrow>
          book_insert M d
            \<lparr>b_id = new_ObjectId d, b_title = ab_title args, b_published = ab_published args,
             b_author = a_id a, b_genres = ab_genres args\<rparr>
      | None \<Rightarrow>
          (let a = \<lparr>a_id = new_ObjectId d, a_name = ab_author args, a_born = None\<rparr>;
               d1 = d\<lparr>authors := authors d @ [a]\<rparr>
           in author_insert M d a \<and>
              book_insert M d1
                \<lparr>b_id = new_ObjectId d1, b_title = ab_title args,
                 b_published = ab_published args, b_author = a_id a,
                 b_genres = ab_genres args\<rparr>))"

subsection \<open>A small catalogue\<close>

definition alice :: user where
  "alice = \<lparr>u_id = 1, u_username = ''alice'', u_favoriteGenre = ''crime''\<rparr>"

definition ex_store :: store where
  "ex_store =
     \<lparr>users = [alice],
      authors = [\<lparr>a_id = 2, a_name = ''Fowler'', a_born = Some 1963\<rparr>,
                 \<lparr>a_id = 4, a_name = ''Beck'', a_born = None\<rparr>],
      books = [\<lparr>b_id = 3, b_title = ''Refactoring'', b_published = 2018, b_author = 2,
                b_genres = [''design'', ''refactoring'']\<rparr>]\<rparr>"

definition ex_server :: server where
  "ex_server = \<lparr>srv_db = ex_store, srv_bus = [\<lparr>s_topic = ''BOOK_ADDED'', s_queue = []\<rparr>]\<rparr>"

definition ex_server0 :: server where
  "ex_server0 = \<lparr>srv_db = ex_store, srv_bus = []\<rparr>"

definition ex_args :: "string \<Rightarrow> string \<Rightarrow> addBook_args" where
  "ex_args t n = \<lparr>ab_title = t, ab_published = 2000, ab_author = n, ab_genres = [''agile'']\<rparr>"

definition martin :: author where
  "martin = \<lparr>a_id = 5, a_name = ''Martin'', a_born = None\<rparr>"

definition ex_pb1 :: populated_book where
  "ex_pb1 = \<lparr>pb_id = 6, pb_title = ''Clean'', pb_published = 2000, pb_author = Some martin,
             pb_genres = [''agile'']\<rparr>"

definition ex_pb2 :: populated_book where
  "ex_pb2 = \<lparr>pb_id = 7, pb_title = ''Agile'', pb_published = 2000, pb_author = Some martin,
             pb_genres = [''agile'']\<rparr>"

definition ex_store1 :: store where
  "ex_store1 =
     ex_store\<lparr>authors := authors ex_store @ [martin],
              books := books ex_store @
                [\<lparr>b_id = 6, b_title = ''Clean'', b_published = 2000, b_author = 5,
                  b_genres = [''agile'']\<rparr>]\<rparr>"

definition ex_server1 :: server where
  "ex_server1 =
     \<lparr>srv_db = ex_store1, srv_bus = [\<lparr>s_topic = ''BOOK_ADDED'', s_queue = [BookAdded ex_pb1]\<rparr>]\<rparr>"

definition ex_server2 :: server where
  "ex_server2 =
     \<lparr>srv_db = ex_store1\<lparr>books := books ex_store1 @
                [\<lparr>b_id = 7, b_title = ''Agile'', b_published = 2000, b_author = 5,
                  b_genres = [''agile'']\<rparr>]\<rparr>,
      srv_bus = [\<lparr>s_topic = ''BOOK_ADDED'', s_queue = [BookAdded ex_pb1, BookAdded ex_pb2]\<rparr>]\<rparr>"

definition ex_server1s :: server where
  "ex_server1s =
     \<lparr>srv_db = ex_store1,
      srv_bus = [\<lparr>s_topic = ''BOOK_ADDED'', s_queue = [BookAdded ex_pb1]\<rparr>,
                 \<lparr>s_topic = ''BOOK_ADDED'', s_queue = []\<rparr>]\<rparr>"

definition ex_server3 :: server where
  "ex_server3 =
     \<lparr>srv_db = srv_db ex_server2,
      srv_bus = [\<lparr>s_topic = ''BOOK_ADDED'', s_queue = [BookAdded ex_pb1, BookAdded ex_pb2]\<rparr>,
                 \<lparr>s_topic = ''BOOK_ADDED'', s_queue = [BookAdded ex_pb2]\<rparr>]\<rparr>"

definition beck :: author where
  "beck = \<lparr>a_id = 4, a_name = ''Beck'', a_born = None\<rparr>"

definition ex_pb0 :: populated_book where
  "ex_pb0 = \<lparr>pb_id = 3, pb_title = ''Refactoring'', pb_published = 2018,
             pb_author = Some \<lparr>a_id = 2, a_name = ''Fowler'', a_born = Some 1963\<rparr>,
             pb_genres = [''design'', ''refactoring'']\<rparr>"

definition fowler :: author where
  "fowler = \<lparr>a_id = 2, a_name = ''Fowler'', a_born = Some 1963\<rparr>"

section \<open>Properties\<close>

subsection \<open>Lookups and new identifiers\<close>

lemma find_Some_set: "find P xs = Some x \<Longrightarrow> x \<in> set xs \<and> P x"
  by (induction xs) (auto split: if_splits)

lemma find_None_set: "(find P xs = None) = (\<forall>x\<in>set xs. \<not> P x)"
  by (induction xs) auto

lemma find_append: "find P (xs @ ys) = (case find P xs of Some x \<Rightarrow> Some x | None \<Rightarrow> find P ys)"
  by (induction xs) auto

lemma find_by_id_distinct:
  "distinct (map a_id xs) \<Longrightarrow> a \<in> set xs \<Longrightarrow> find (\<lambda>x. a_id x = a_id a) xs = Some a"
  by (induction xs) (auto simp: image_iff)

lemma foldr_max_ge: "x \<in> set xs \<Longrightarrow> x \<le> foldr max xs (0::nat)"
  by (induction xs) (auto simp: max_def)

lemma author_id_less_new: "a \<in> set (authors d) \<Longrightarrow> a_id a < new_ObjectId d"
  unfolding new_ObjectId_def all_ids_def
  by (rule le_imp_less_Suc, rule foldr_max_ge) auto

lemma new_ObjectId_not_author: "new_ObjectId d \<notin> a_id ` set (authors d)"
  using author_id_less_new by fastforce

text \<open>
  Claim C1. An addBook call whose context has no current user fails with the error
  "not authenticated" of code UNAUTHENTICATED and returns the server state it was given:
  no Book and no Author document is created, and nothing is published.
\<close>

theorem addBook_unauthenticated:
  "addBook M s args None = (Inl (GraphQLError ''not authenticated'' ''UNAUTHENTICATED''), s)"
  by (simp add: addBook_def)

lemma find_or_create_found:
  "Author_findOne_name d n = Some a \<Longrightarrow> find_or_create_author M d n = (Inr a, d)"
  by (simp add: find_or_create_author_def)

lemma find_or_create_cases:
  "find_or_create_author M d n = (r, d1) \<Longrightarrow>
     (\<exists>a. Author_findOne_name d n = Some a \<and> r = Inr a \<and> d1 = d) \<or>
     (Author_findOne_name d n = None \<and> author_insert M d (new_Author d n) \<and>
        r = Inr (new_Author d n) \<and> d1 = d\<lparr>authors := authors d @ [new_Author d n]\<rparr>) \<or>
     (Author_findOne_name d n = None \<and> \<not> author_insert M d (new_Author d n) \<and>
        r = Inl ValidationError \<and> d1 = d)"
  by (auto simp: find_or_create_author_def Let_def split: option.splits if_splits)

lemma find_new_author_id: "find (\<lambda>a. a_id a = new_ObjectId d) (authors d) = None"
  using author_id_less_new[of _ d] by (fastforce simp: find_None_set)

lemma find_or_create_resolves:
  assumes "distinct (map a_id (authors d))" "find_or_create_author M d n = (Inr a, d1)"
  shows "Author_findById d1 (a_id a) = Some a \<and> a_name a = n \<and> a \<in> set (authors d1)
         \<and> distinct (map a_id (authors d1)) \<and> Author_findOne_name d1 n = Some a"
proof -
  consider (found) "Author_findOne_name d n = Some a" "d1 = d"
    | (created) "Author_findOne_name d n = None" "a = new_Author d n"
        "d1 = d\<lparr>authors := authors d @ [new_Author d n]\<rparr>"
    using find_or_create_cases[OF assms(2)] by auto
  then show ?thesis
  proof cases
    case found
    then have "a \<in> set (authors d)" "a_name a = n"
      using find_Some_set[of "\<lambda>a. a_name a = n" "authors d" a]
      by (simp_all add: Author_findOne_name_def)
    then show ?thesis
      using found assms(1) by (simp add: Author_findById_def find_by_id_distinct)
  next
    case created
    have "find (\<lambda>x. a_name x = n) (authors d) = None"
      using created(1) by (simp add: Author_findOne_name_def)
    then show ?thesis
      using created assms(1) new_ObjectId_not_author[of d]
      by (simp add: Author_findById_def Author_findOne_name_def find_append new_Author_def
          find_new_author_id)
  qed
qed


lemma findOne_name_None: "(Author_findOne_name d n = None) = (\<forall>x\<in>set (authors d). a_name x \<noteq> n)"
  by (simp add: Author_findOne_name_def find_None_set)

lemma find_or_create_authors:
  assumes "find_or_create_author M d n = (Inr a, d1)"
  shows "authors d1 =
           (if \<exists>x\<in>set (authors d). a_name x = n then authors d else authors d @ [a])
         \<and> users d1 = users d \<and> books d1 = books d"
  using find_or_create_cases[OF assms] findOne_name_None[of d n] by auto

lemma addBook_success:
  assumes "find_or_create_author M (srv_db s) (ab_author args) = (Inr a, d1)"
    and "book_insert M d1 (new_Book d1 args (a_id a))"
  shows "addBook M s args (Some u) =
           (Inr (populate (d1\<lparr>books := books d1 @ [new_Book d1 args (a_id a)]\<rparr>)
                   (new_Book d1 args (a_id a))),
            \<lparr>srv_db = d1\<lparr>books := books d1 @ [new_Book d1 args (a_id a)]\<rparr>,
             srv_bus = publish ''BOOK_ADDED''
               (BookAdded (populate (d1\<lparr>books := books d1 @ [new_Book d1 args (a_id a)]\<rparr>)
                   (new_Book d1 args (a_id a)))) (srv_bus s)\<rparr>)"
  using assms by (simp add: addBook_def Let_def)

lemma addBook_valid_cases:
  assumes "addBook_valid M d args"
  obtains a d1 where "find_or_create_author M d (ab_author args) = (Inr a, d1)"
    "book_insert M d1 (new_Book d1 args (a_id a))"
proof (cases "find (\<lambda>x. a_name x = ab_author args) (authors d)")
  case None
  let ?a = "new_Author d (ab_author args)"
  let ?d1 = "d\<lparr>authors := authors d @ [?a]\<rparr>"
  have "author_insert M d ?a" "book_insert M ?d1 (new_Book ?d1 args (a_id ?a))"
    using assms None by (simp_all add: addBook_valid_def new_Author_def new_Book_def Let_def)
  moreover from this have "find_or_create_author M d (ab_author args) = (Inr ?a, ?d1)"
    using None by (simp add: find_or_create_author_def Author_findOne_name_def Let_def)
  ultimately show ?thesis using that by blast
next
  case (Some a)
  have "book_insert M d (new_Book d args (a_id a))"
    using assms Some by (simp add: addBook_valid_def new_Book_def)
  moreover have "find_or_create_author M d (ab_author args) = (Inr a, d)"
    using Some by (simp add: find_or_create_author_def Author_findOne_name_def)
  ultimately show ?thesis using that by blast
qed

text \<open>
  Claim C2. An addBook call with a current user and valid arguments, on a well-formed
  store, succeeds and appends exactly one Book, carrying the title, year and genres given
  and the id of an author named as given. When a stored author has exactly the given
  name it creates no Author and the book refers to the first such author; otherwise it
  appends one Author of that name, with no year of birth. The users are untouched, and
  the Book it returns has the whole Author document (identifier, name, year of birth) in
  its author field.
\<close>

theorem addBook_creates_one_book:
  assumes "wf_store (srv_db s)" and "addBook_valid M (srv_db s) args"
    and "addBook M s args (Some u) = (r, s')"
  shows "\<exists>a b.
           books (srv_db s') = books (srv_db s) @ [b] \<and>
           b_title b = ab_title args \<and> b_published b = ab_published args \<and>
           b_genres b = ab_genres args \<and> b_author b = a_id a \<and>
           users (srv_db s') = users (srv_db s) \<and>
           authors (srv_db s') =
             (if \<exists>x\<in>set (authors (srv_db s)). a_name x = ab_author args
              then authors (srv_db s) else authors (srv_db s) @ [a]) \<and>
           (case find (\<lambda>x. a_name x = ab_author args) (authors (srv_db s)) of
              Some a0 \<Rightarrow> a = a0
            | None \<Rightarrow> a_id a \<notin> a_id ` set (authors (srv_db s)) \<and> a_born a = None) \<and>
           a \<in> set (authors (srv_db s')) \<and> a_name a = ab_author args \<and>
           r = Inr \<lparr>pb_id = b_id b, pb_title = ab_title args, pb_published = ab_published args,
                    pb_author = Some a, pb_genres = ab_genres args\<rparr>"
proof -
  obtain a d1 where foc: "find_or_create_author M (srv_db s) (ab_author args) = (Inr a, d1)"
    and ok: "book_insert M d1 (new_Book d1 args (a_id a))"
    using assms(2) by (rule addBook_valid_cases)
  define b where "b = new_Book d1 args (a_id a)"
  have dist: "distinct (map a_id (authors (srv_db s)))"
    using assms(1) by (simp add: wf_store_def)
  have res: "Author_findById d1 (a_id a) = Some a" "a_name a = ab_author args"
    "a \<in> set (authors d1)"
    using find_or_create_resolves[OF dist foc] by simp_all
  have auth: "authors d1 =
      (if \<exists>x\<in>set (authors (srv_db s)). a_name x = ab_author args
       then authors (srv_db s) else authors (srv_db s) @ [a])"
    "users d1 = users (srv_db s)" "books d1 = books (srv_db s)"
    using find_or_create_authors[OF foc] by simp_all
  have which: "(case find (\<lambda>x. a_name x = ab_author args) (authors (srv_db s)) of
              Some a0 \<Rightarrow> a = a0
            | None \<Rightarrow> a_id a \<notin> a_id ` set (authors (srv_db s)) \<and> a_born a = None)"
    using find_or_create_cases[OF foc] new_ObjectId_not_author[of "srv_db s"]
    by (auto simp: Author_findOne_name_def new_Author_def split: option.splits)
  have eq: "r = Inr (populate (d1\<lparr>books := books d1 @ [b]\<rparr>) b)"
    "srv_db s' = d1\<lparr>books := books d1 @ [b]\<rparr>"
    using addBook_success[OF foc ok, of u] assms(3) by (simp_all add: b_def)
  have pop: "populate (d1\<lparr>books := books d1 @ [b]\<rparr>) b =
      \<lparr>pb_id = b_id b, pb_title = ab_title args, pb_published = ab_published args,
       pb_author = Some a, pb_genres = ab_genres args\<rparr>"
    using res(1) by (simp add: populate_def b_def new_Book_def Author_findById_def)
  have fields: "b_title b = ab_title args" "b_published b = ab_published args"
    "b_genres b = ab_genres args" "b_author b = a_id a"
    by (simp_all add: b_def new_Book_def)
  have "books (srv_db s') = books (srv_db s) @ [b]"
    using eq(2) auth(3) by simp
  moreover have "users (srv_db s') = users (srv_db s)"
    using eq(2) auth(2) by simp
  moreover have "authors (srv_db s') = authors d1" "a \<in> set (authors (srv_db s'))"
    using eq(2) res(3) by simp_all
  ultimately show ?thesis
    using fields res(2) auth(1) eq(1) pop which by (intro exI[of _ a] exI[of _ b]) simp
qed

lemma wf_ex_store: "wf_store ex_store"
  by (simp add: wf_store_def ex_store_def Author_findById_def)

lemma ex_addBook1:
  "addBook spec_models ex_server (ex_args ''Clean'' ''Martin'') (Some alice) = (Inr ex_pb1, ex_server1)"
  by (simp add: addBook_def find_or_create_author_def Author_findOne_name_def Author_findById_def
      ex_server_def ex_store_def ex_args_def spec_models_def new_Author_def new_Book_def Let_def
      new_ObjectId_def all_ids_def populate_def publish_def alice_def ex_pb1_def ex_server1_def
      ex_store1_def martin_def)

theorem addBook_creates_one_book_witness:
  "wf_store (srv_db ex_server) \<and>
   addBook_valid spec_models (srv_db ex_server) (ex_args ''Clean'' ''Martin'') \<and>
   addBook_valid spec_models (srv_db ex_server) (ex_args ''UML'' ''Fowler'') \<and>
   fst (addBook spec_models ex_server (ex_args ''Clean'' ''Martin'') (Some alice)) =
     Inr \<lparr>pb_id = 6, pb_title = ''Clean'', pb_published = 2000,
          pb_author = Some \<lparr>a_id = 5, a_name = ''Martin'', a_born = None\<rparr>,
          pb_genres = [''agile'']\<rparr> \<and>
   authors (srv_db (snd (addBook spec_models ex_server (ex_args ''Clean'' ''Martin'') (Some alice))))
     = authors ex_store @ [\<lparr>a_id = 5, a_name = ''Martin'', a_born = None\<rparr>] \<and>
   books (srv_db (snd (addBook spec_models ex_server (ex_args ''Clean'' ''Martin'') (Some alice))))
     = books ex_store @ [\<lparr>b_id = 6, b_title = ''Clean'', b_published = 2000, b_author = 5,
                           b_genres = [''agile'']\<rparr>] \<and>
   fst (addBook spec_models ex_server (ex_args ''UML'' ''Fowler'') (Some alice)) =
     Inr \<lparr>pb_id = 5, pb_title = ''UML'', pb_published = 2000,
          pb_author = Some \<lparr>a_id = 2, a_name = ''Fowler'', a_born = Some 1963\<rparr>,
          pb_genres = [''agile'']\<rparr> \<and>
   authors (srv_db (snd (addBook spec_models ex_server (ex_args ''UML'' ''Fowler'') (Some alice))))
     = authors ex_store \<and>
   books (srv_db (snd (addBook spec_models ex_server (ex_args ''UML'' ''Fowler'') (Some alice))))
     = books ex_store @ [\<lparr>b_id = 5, b_title = ''UML'', b_published = 2000, b_author = 2,
                           b_genres = [''agile'']\<rparr>]"
proof -
  let ?new = "addBook spec_models ex_server (ex_args ''Clean'' ''Martin'') (Some alice)"
  let ?old = "addBook spec_models ex_server (ex_args ''UML'' ''Fowler'') (Some alice)"
  have h1: "wf_store (srv_db ex_server)"
    by (simp add: ex_server_def wf_ex_store)
  have h2: "addBook_valid spec_models (srv_db ex_server) (ex_args ''Clean'' ''Martin'')"
    by (simp add: addBook_valid_def ex_server_def ex_store_def ex_args_def spec_models_def Let_def)
  have h3: "addBook_valid spec_models (srv_db ex_server) (ex_args ''UML'' ''Fowler'')"
    by (simp add: addBook_valid_def ex_server_def ex_store_def ex_args_def spec_models_def)
  have grows: "\<exists>b. books (srv_db (snd ?new)) = books (srv_db ex_server) @ [b]"
    using addBook_creates_one_book[OF h1 h2 surjective_pairing, of alice] by blast
  have grows': "\<exists>b. books (srv_db (snd ?old)) = books (srv_db ex_server) @ [b]"
    using addBook_creates_one_book[OF h1 h3 surjective_pairing, of alice] by blast
  have new: "fst ?new = Inr ex_pb1" "srv_db (snd ?new) = ex_store1"
    by (simp_all add: ex_addBook1 ex_server1_def)
  have old: "?old =
      (Inr \<lparr>pb_id = 5, pb_title = ''UML'', pb_published = 2000,
            pb_author = Some \<lparr>a_id = 2, a_name = ''Fowler'', a_born = Some 1963\<rparr>,
            pb_genres = [''agile'']\<rparr>,
       \<lparr>srv_db = ex_store\<lparr>books := books ex_store @
            [\<lparr>b_id = 5, b_title = ''UML'', b_published = 2000, b_author = 2,
              b_genres = [''agile'']\<rparr>]\<rparr>,
        srv_bus = [\<lparr>s_topic = ''BOOK_ADDED'', s_queue =
            [BookAdded \<lparr>pb_id = 5, pb_title = ''UML'', pb_published = 2000,
               pb_author = Some \<lparr>a_id = 2, a_name = ''Fowler'', a_born = Some 1963\<rparr>,
               pb_genres = [''agile'']\<rparr>]\<rparr>]\<rparr>)"
    by (simp add: addBook_def find_or_create_author_def Author_findOne_name_def
        Author_findById_def ex_server_def ex_store_def ex_args_def spec_models_def new_Book_def
        Let_def new_ObjectId_def all_ids_def populate_def publish_def alice_def)
  show ?thesis
    using h1 h2 h3 grows grows'
    by (simp add: new old ex_pb1_def ex_store1_def martin_def)
qed

subsection \<open>What a successful addBook call did\<close>

lemma addBook_Inr_cases:
  assumes "addBook M s args c = (Inr pb, s')"
  obtains u a d1 where "c = Some u"
    "find_or_create_author M (srv_db s) (ab_author args) = (Inr a, d1)"
    "book_insert M d1 (new_Book d1 args (a_id a))"
proof (cases c)
  case None
  then show ?thesis using assms by (simp add: addBook_def)
next
  case (Some u)
  obtain r0 d1 where foc: "find_or_create_author M (srv_db s) (ab_author args) = (r0, d1)"
    by (cases "find_or_create_author M (srv_db s) (ab_author args)")
  show ?thesis
  proof (cases r0)
    case (Inl e)
    then show ?thesis using assms Some foc by (simp add: addBook_def)
  next
    case (Inr a)
    then have "book_insert M d1 (new_Book d1 args (a_id a))"
      using assms Some foc by (simp add: addBook_def Let_def split: if_splits)
    then show ?thesis using that Some foc Inr by simp
  qed
qed

lemma addBook_Inr_author:
  assumes "distinct (map a_id (authors (srv_db s)))" and "addBook M s args c = (Inr pb, s')"
  shows "\<exists>a. pb_author pb = Some a \<and> a_name a = ab_author args \<and>
           Author_findOne_name (srv_db s') (ab_author args) = Some a \<and>
           distinct (map a_id (authors (srv_db s'))) \<and>
           authors (srv_db s') =
             (if \<exists>x\<in>set (authors (srv_db s)). a_name x = ab_author args
              then authors (srv_db s) else authors (srv_db s) @ [a])"
proof -
  obtain u a d1 where c: "c = Some u"
    and foc: "find_or_create_author M (srv_db s) (ab_author args) = (Inr a, d1)"
    and ok: "book_insert M d1 (new_Book d1 args (a_id a))"
    using assms(2) by (rule addBook_Inr_cases)
  have res: "Author_findById d1 (a_id a) = Some a" "a_name a = ab_author args"
    "distinct (map a_id (authors d1))" "Author_findOne_name d1 (ab_author args) = Some a"
    using find_or_create_resolves[OF assms(1) foc] by simp_all
  have eq: "pb = populate (d1\<lparr>books := books d1 @ [new_Book d1 args (a_id a)]\<rparr>)
                   (new_Book d1 args (a_id a))"
    "srv_db s' = d1\<lparr>books := books d1 @ [new_Book d1 args (a_id a)]\<rparr>"
    using addBook_success[OF foc ok, of u] assms(2) c by auto
  have "pb_author pb = Some a"
    using eq(1) res(1) by (simp add: populate_def new_Book_def Author_findById_def)
  moreover have "Author_findOne_name (srv_db s') (ab_author args) = Some a"
    using eq(2) res(4) by (simp add: Author_findOne_name_def)
  moreover have "authors (srv_db s') = authors d1"
    using eq(2) by simp
  ultimately show ?thesis
    using res(2,3) find_or_create_authors[OF foc] by auto
qed

text \<open>
  Claim C6 as stated fails for a name that is already on file: two consecutive
  successful addBook calls citing Fowler, a stored author, create no Author at all, not
  one; both return the stored author.
\<close>

theorem find_or_create_existing_counterexample:
  "Author_findOne_name (srv_db ex_server) ''Fowler'' = Some fowler \<and>
   fst (addBook spec_models ex_server (ex_args ''UML'' ''Fowler'') (Some alice))
     = Inr \<lparr>pb_id = 5, pb_title = ''UML'', pb_published = 2000, pb_author = Some fowler,
            pb_genres = [''agile'']\<rparr> \<and>
   fst (addBook spec_models
          (snd (addBook spec_models ex_server (ex_args ''UML'' ''Fowler'') (Some alice)))
          (ex_args ''NoSQL'' ''Fowler'') (Some alice))
     = Inr \<lparr>pb_id = 6, pb_title = ''NoSQL'', pb_published = 2000, pb_author = Some fowler,
            pb_genres = [''agile'']\<rparr> \<and>
   authors (srv_db (snd (addBook spec_models
          (snd (addBook spec_models ex_server (ex_args ''UML'' ''Fowler'') (Some alice)))
          (ex_args ''NoSQL'' ''Fowler'') (Some alice))))
     = authors (srv_db ex_server)"
  by (simp add: addBook_def find_or_create_author_def Author_findOne_name_def Author_findById_def
      ex_server_def ex_store_def ex_args_def spec_models_def new_Book_def Let_def
      new_ObjectId_def all_ids_def populate_def publish_def alice_def fowler_def)

text \<open>
  Claim C6, as amended. When two addBook calls, one right after the other, both succeed
  and cite the same author name, the second creates no Author and returns the very
  Author document the first one created or found. Across both calls the authors grow by
  one when no stored author had that name and by none when one had: at most one Author
  is created, and when none had the name exactly one stored author has it afterwards.
\<close>

theorem find_or_create_idempotent:
  assumes "wf_store (srv_db s)"
    and "addBook M s args1 c1 = (Inr pb1, s1)"
    and "addBook M s1 args2 c2 = (Inr pb2, s2)"
    and "ab_author args2 = ab_author args1"
  shows "authors (srv_db s2) = authors (srv_db s1) \<and>
         (\<exists>a. pb_author pb1 = Some a \<and> pb_author pb2 = Some a \<and> a_name a = ab_author args1) \<and>
         length (authors (srv_db s2)) =
           length (authors (srv_db s)) +
             (if \<exists>x\<in>set (authors (srv_db s)). a_name x = ab_author args1 then 0 else 1) \<and>
         length (filter (\<lambda>x. a_name x = ab_author args1) (authors (srv_db s2))) =
           max 1 (length (filter (\<lambda>x. a_name x = ab_author args1) (authors (srv_db s))))"
proof -
  let ?n = "ab_author args1"
  have dist: "distinct (map a_id (authors (srv_db s)))"
    using assms(1) by (simp add: wf_store_def)
  obtain a where a: "pb_author pb1 = Some a" "a_name a = ?n"
    "Author_findOne_name (srv_db s1) ?n = Some a"
    "distinct (map a_id (authors (srv_db s1)))"
    "authors (srv_db s1) =
       (if \<exists>x\<in>set (authors (srv_db s)). a_name x = ?n
        then authors (srv_db s) else authors (srv_db s) @ [a])"
    using addBook_Inr_author[OF dist assms(2)] by blast
  obtain a' where a': "pb_author pb2 = Some a'"
    "Author_findOne_name (srv_db s2) ?n = Some a'"
    "authors (srv_db s2) =
       (if \<exists>x\<in>set (authors (srv_db s1)). a_name x = ?n
        then authors (srv_db s1) else authors (srv_db s1) @ [a'])"
    using addBook_Inr_author[OF a(4) assms(3)] assms(4) by auto
  have ex1: "\<exists>x\<in>set (authors (srv_db s1)). a_name x = ?n"
    using a(3) findOne_name_None[of "srv_db s1" ?n] by auto
  then have same: "authors (srv_db s2) = authors (srv_db s1)"
    using a'(3) by simp
  then have "a' = a"
    using a(3) a'(2) by (simp add: Author_findOne_name_def)
  moreover have "length (filter (\<lambda>x. a_name x = ?n) (authors (srv_db s1))) =
           max 1 (length (filter (\<lambda>x. a_name x = ?n) (authors (srv_db s))))"
  proof (cases "\<exists>x\<in>set (authors (srv_db s)). a_name x = ?n")
    case True
    then have "filter (\<lambda>x. a_name x = ?n) (authors (srv_db s)) \<noteq> []"
      by (simp add: filter_empty_conv)
    then have "1 \<le> length (filter (\<lambda>x. a_name x = ?n) (authors (srv_db s)))"
      by (cases "filter (\<lambda>x. a_name x = ?n) (authors (srv_db s))") simp_all
    then show ?thesis using True a(5) by (simp add: max_def)
  next
    case False
    then have "filter (\<lambda>x. a_name x = ?n) (authors (srv_db s)) = []"
      by (simp add: filter_empty_conv)
    then show ?thesis using False a(5) a(2) by simp
  qed
  ultimately show ?thesis
    using same a(1,2,5) a'(1) by auto
qed

lemma ex_addBook2:
  "addBook spec_models ex_server1 (ex_args ''Agile'' ''Martin'') (Some alice) = (Inr ex_pb2, ex_server2)"
  by (simp add: addBook_def find_or_create_author_def Author_findOne_name_def Author_findById_def
      ex_server_def ex_store_def ex_args_def spec_models_def new_Author_def new_Book_def Let_def
      new_ObjectId_def all_ids_def populate_def publish_def alice_def ex_pb1_def ex_pb2_def
      ex_server1_def ex_server2_def ex_store1_def martin_def)

theorem find_or_create_idempotent_witness:
  "wf_store (srv_db ex_server) \<and>
   addBook spec_models ex_server (ex_args ''Clean'' ''Martin'') (Some alice) = (Inr ex_pb1, ex_server1) \<and>
   addBook spec_models ex_server1 (ex_args ''Agile'' ''Martin'') (Some alice) = (Inr ex_pb2, ex_server2) \<and>
   ab_author (ex_args ''Agile'' ''Martin'') = ab_author (ex_args ''Clean'' ''Martin'') \<and>
   authors (srv_db ex_server2) = authors (srv_db ex_server1) \<and>
   pb_author ex_pb1 = Some martin \<and> pb_author ex_pb2 = Some martin \<and>
   length (authors (srv_db ex_server2)) = length (authors (srv_db ex_server)) + 1 \<and>
   length (filter (\<lambda>x. a_name x = ''Martin'') (authors (srv_db ex_server2))) = 1"
proof -
  have h1: "wf_store (srv_db ex_server)"
    by (simp add: ex_server_def wf_ex_store)
  have h4: "ab_author (ex_args ''Agile'' ''Martin'') = ab_author (ex_args ''Clean'' ''Martin'')"
    by (simp add: ex_args_def)
  have none: "\<not> (\<exists>x\<in>set (authors (srv_db ex_server)). a_name x = ''Martin'')"
    by (simp add: ex_server_def ex_store_def)
  have pbs: "pb_author ex_pb1 = Some martin" "pb_author ex_pb2 = Some martin"
    by (simp_all add: ex_pb1_def ex_pb2_def)
  have empty: "filter (\<lambda>x. a_name x = ''Martin'') (authors (srv_db ex_server)) = []"
    by (simp add: ex_server_def ex_store_def)
  note t = find_or_create_idempotent[OF h1 ex_addBook1 ex_addBook2 h4]
  have c1: "authors (srv_db ex_server2) = authors (srv_db ex_server1)"
    using t by (rule conjunct1)
  have c2: "length (authors (srv_db ex_server2)) = length (authors (srv_db ex_server)) + 1"
    using t[THEN conjunct2, THEN conjunct2, THEN conjunct1] none by (simp add: ex_args_def)
  have c3: "length (filter (\<lambda>x. a_name x = ''Martin'') (authors (srv_db ex_server2))) = 1"
    using t[THEN conjunct2, THEN conjunct2, THEN conjunct2] empty by (simp add: ex_args_def)
  show ?thesis
    using h1 h4 ex_addBook1 ex_addBook2 pbs c1 c2 c3 by (intro conjI)
qed

subsection \<open>Delivery of bookAdded\<close>

lemma addBook_bus:
  "addBook M s args c = (r, s') \<Longrightarrow>
     srv_bus s' = (case r of Inl e \<Rightarrow> srv_bus s
                   | Inr pb \<Rightarrow> publish ''BOOK_ADDED'' (BookAdded pb) (srv_bus s))"
  by (auto simp: addBook_def Let_def split: option.splits prod.splits sum.splits if_splits)

lemma length_publish: "length (publish t p b) = length b"
  by (simp add: publish_def)

lemma topic_publish: "h < length b \<Longrightarrow> s_topic (publish t p b ! h) = s_topic (b ! h)"
  by (simp add: publish_def)

lemma received_publish:
  "h < length b \<Longrightarrow> s_topic (b ! h) = t \<Longrightarrow> received (publish t p b) h = received b h @ [p]"
  by (simp add: publish_def received_def)

lemma addBook_received:
  assumes "h < length (srv_bus s)" "s_topic (srv_bus s ! h) = ''BOOK_ADDED''"
    "addBook M s args c = (r, s')"
  shows "h < length (srv_bus s') \<and> s_topic (srv_bus s' ! h) = ''BOOK_ADDED'' \<and>
         notifications s' h = notifications s h @ returned_books [r]"
proof (cases r)
  case (Inl e)
  then show ?thesis
    using assms addBook_bus[OF assms(3)] by (simp add: notifications_def)
next
  case (Inr pb)
  then have "srv_bus s' = publish ''BOOK_ADDED'' (BookAdded pb) (srv_bus s)"
    using addBook_bus[OF assms(3)] by simp
  then show ?thesis
    using assms(1,2) Inr
    by (simp add: notifications_def length_publish topic_publish received_publish)
qed

lemma returned_books_Cons: "returned_books (r # rs) = returned_books [r] @ returned_books rs"
  by (cases r) simp_all

lemma returned_books_successes: "map Inr (returned_books rs) = filter (\<lambda>r. \<not> isl r) rs"
  by (induction rs rule: returned_books.induct) simp_all

lemma addBooks_received:
  "h < length (srv_bus s) \<Longrightarrow> s_topic (srv_bus s ! h) = ''BOOK_ADDED'' \<Longrightarrow>
   addBooks M s cs = (rs, s') \<Longrightarrow>
     h < length (srv_bus s') \<and> s_topic (srv_bus s' ! h) = ''BOOK_ADDED'' \<and>
     notifications s' h = notifications s h @ returned_books rs"
proof (induction cs arbitrary: s rs s')
  case Nil
  then show ?case by simp
next
  case (Cons c cs)
  obtain r s1 where step: "addBook M s (fst c) (snd c) = (r, s1)"
    by (cases "addBook M s (fst c) (snd c)")
  obtain rs1 s2 where rest: "addBooks M s1 cs = (rs1, s2)"
    by (cases "addBooks M s1 cs")
  have eq: "rs = r # rs1" "s' = s2"
    using Cons.prems(3) step rest by simp_all
  have one: "h < length (srv_bus s1)" "s_topic (srv_bus s1 ! h) = ''BOOK_ADDED''"
    "notifications s1 h = notifications s h @ returned_books [r]"
    using addBook_received[OF Cons.prems(1,2) step] by simp_all
  have "h < length (srv_bus s2) \<and> s_topic (srv_bus s2 ! h) = ''BOOK_ADDED'' \<and>
     notifications s2 h = notifications s1 h @ returned_books rs1"
    using Cons.IH[OF one(1,2) rest] .
  then show ?case
    using eq one(3) returned_books_Cons[of r rs1] by simp
qed

lemma subscribe_new:
  assumes "bookAdded_subscribe s = (h, s')"
  shows "h < length (srv_bus s')" and "s_topic (srv_bus s' ! h) = ''BOOK_ADDED''"
    and "notifications s' h = []" and "srv_db s' = srv_db s" and "h = length (srv_bus s)"
  using assms by (auto simp: bookAdded_subscribe_def asyncIterator_def notifications_def received_def)

lemma subscribe_old:
  assumes "bookAdded_subscribe s = (h', s')" "h < length (srv_bus s)"
  shows "h < length (srv_bus s') \<and> srv_bus s' ! h = srv_bus s ! h \<and>
         notifications s' h = notifications s h"
  using assms
  by (auto simp: bookAdded_subscribe_def asyncIterator_def notifications_def received_def nth_append)

lemma addBooks_length: "addBooks M s cs = (rs, s') \<Longrightarrow> length (srv_bus s') = length (srv_bus s)"
proof (induction cs arbitrary: s rs s')
  case Nil
  then show ?case by simp
next
  case (Cons c cs)
  obtain r s1 where step: "addBook M s (fst c) (snd c) = (r, s1)"
    by (cases "addBook M s (fst c) (snd c)")
  obtain rs1 s2 where rest: "addBooks M s1 cs = (rs1, s2)"
    by (cases "addBooks M s1 cs")
  have "length (srv_bus s1) = length (srv_bus s)"
    using addBook_bus[OF step] by (cases r) (simp_all add: length_publish)
  moreover have "length (srv_bus s2) = length (srv_bus s1)"
    using Cons.IH[OF rest] .
  moreover have "s' = s2"
    using Cons.prems step rest by simp
  ultimately show ?case by simp
qed

text \<open>
  Claim C3. A subscriber that registers for bookAdded, on any registry (an empty one
  too), before a sequence of addBook calls is sent one notification for each call of
  the sequence that succeeds, in call order, each carrying the Book that call returned,
  and nothing else. A subscriber that registers after these calls is sent nothing for
  them: it is sent the Books of the successful calls that follow its registration, and
  only those, while the first subscriber is sent these after the earlier ones. The same
  holds of every subscriber registered for BOOK_ADDED earlier still: the Books of both
  sequences are added, in order, to what it had been sent.
\<close>

theorem bookAdded_delivery:
  assumes "bookAdded_subscribe s0 = (h, s)"
    and "addBooks M s cs = (rs, s1)"
    and "bookAdded_subscribe s1 = (h', s2)"
    and "addBooks M s2 cs' = (rs', s3)"
  shows "notifications s h = [] \<and>
         notifications s1 h = returned_books rs \<and>
         notifications s3 h = returned_books rs @ returned_books rs' \<and>
         notifications s2 h' = [] \<and>
         notifications s3 h' = returned_books rs' \<and>
         h \<noteq> h' \<and>
         map Inr (returned_books rs) = filter (\<lambda>r. \<not> isl r) rs \<and>
         map Inr (returned_books rs') = filter (\<lambda>r. \<not> isl r) rs' \<and>
         (g < length (srv_bus s0) \<and> s_topic (srv_bus s0 ! g) = ''BOOK_ADDED'' \<longrightarrow>
            notifications s3 g = notifications s0 g @ returned_books rs @ returned_books rs')"
proof -
  have reg: "h < length (srv_bus s)" "s_topic (srv_bus s ! h) = ''BOOK_ADDED''"
    "notifications s h = []" "h = length (srv_bus s0)"
    using subscribe_new(1,2,3,5)[OF assms(1)] .
  have a: "h < length (srv_bus s1)" "s_topic (srv_bus s1 ! h) = ''BOOK_ADDED''"
    "notifications s1 h = notifications s h @ returned_books rs"
    using addBooks_received[OF reg(1,2) assms(2)] by simp_all
  have b: "h < length (srv_bus s2)" "s_topic (srv_bus s2 ! h) = ''BOOK_ADDED''"
    "notifications s2 h = notifications s1 h"
    using subscribe_old[OF assms(3) a(1)] a(2) by simp_all
  have c: "h' < length (srv_bus s2)" "s_topic (srv_bus s2 ! h') = ''BOOK_ADDED''"
    "notifications s2 h' = []" "h' = length (srv_bus s1)"
    using subscribe_new(1,2,3,5)[OF assms(3)] .
  have first: "notifications s3 h = notifications s2 h @ returned_books rs'"
    using addBooks_received[OF b(1,2) assms(4)] by simp
  have late: "notifications s3 h' = notifications s2 h' @ returned_books rs'"
    using addBooks_received[OF c(1,2) assms(4)] by simp
  have ne: "h \<noteq> h'"
    using a(1) c(4) by simp
  have older: "notifications s3 g = notifications s0 g @ returned_books rs @ returned_books rs'"
    if g: "g < length (srv_bus s0)" "s_topic (srv_bus s0 ! g) = ''BOOK_ADDED''"
  proof -
    have g0: "g < length (srv_bus s)" "s_topic (srv_bus s ! g) = ''BOOK_ADDED''"
      "notifications s g = notifications s0 g"
      using subscribe_old[OF assms(1) g(1)] g(2) by simp_all
    have g1: "g < length (srv_bus s1)" "s_topic (srv_bus s1 ! g) = ''BOOK_ADDED''"
      "notifications s1 g = notifications s g @ returned_books rs"
      using addBooks_received[OF g0(1,2) assms(2)] by simp_all
    have g2: "g < length (srv_bus s2)" "s_topic (srv_bus s2 ! g) = ''BOOK_ADDED''"
      "notifications s2 g = notifications s1 g"
      using subscribe_old[OF assms(3) g1(1)] g1(2) by simp_all
    have "notifications s3 g = notifications s2 g @ returned_books rs'"
      using addBooks_received[OF g2(1,2) assms(4)] by simp
    then show ?thesis
      using g0(3) g1(3) g2(3) by simp
  qed
  show ?thesis
    using reg(3) a(3) b(3) c(3) first late ne older
    by (simp add: returned_books_successes)
qed

lemma ex_subscribe0: "bookAdded_subscribe ex_server0 = (0, ex_server)"
  by (simp add: bookAdded_subscribe_def asyncIterator_def ex_server0_def ex_server_def)

lemma ex_subscribe: "bookAdded_subscribe ex_server1 = (1, ex_server1s)"
  by (simp add: bookAdded_subscribe_def asyncIterator_def ex_server1_def ex_server1s_def)

lemma ex_addBook3:
  "addBook spec_models ex_server1s (ex_args ''Agile'' ''Martin'') (Some alice) = (Inr ex_pb2, ex_server3)"
  by (simp add: addBook_def find_or_create_author_def Author_findOne_name_def Author_findById_def
      ex_server_def ex_store_def ex_args_def spec_models_def new_Author_def new_Book_def Let_def
      new_ObjectId_def all_ids_def populate_def publish_def alice_def ex_pb1_def ex_pb2_def
      ex_server1s_def ex_server2_def ex_server3_def ex_store1_def martin_def)

theorem bookAdded_delivery_witness:
  "srv_bus ex_server0 = [] \<and>
   bookAdded_subscribe ex_server0 = (0, ex_server) \<and>
   addBooks spec_models ex_server [(ex_args ''Clean'' ''Martin'', Some alice)] = ([Inr ex_pb1], ex_server1) \<and>
   bookAdded_subscribe ex_server1 = (1, ex_server1s) \<and>
   addBooks spec_models ex_server1s [(ex_args ''Agile'' ''Martin'', Some alice)] = ([Inr ex_pb2], ex_server3) \<and>
   notifications ex_server 0 = [] \<and>
   notifications ex_server1 0 = [ex_pb1] \<and>
   notifications ex_server3 0 = [ex_pb1, ex_pb2] \<and>
   notifications ex_server1s 1 = [] \<and>
   notifications ex_server3 1 = [ex_pb2] \<and>
   0 < length (srv_bus ex_server1) \<and> s_topic (srv_bus ex_server1 ! 0) = ''BOOK_ADDED'' \<and>
   notifications (snd (bookAdded_subscribe ex_server3)) 0 = [ex_pb1, ex_pb2]"
proof -
  have e: "srv_bus ex_server0 = []"
    by (simp add: ex_server0_def)
  have h2: "addBooks spec_models ex_server [(ex_args ''Clean'' ''Martin'', Some alice)]
              = ([Inr ex_pb1], ex_server1)"
    by (simp add: ex_addBook1)
  have h4: "addBooks spec_models ex_server1s [(ex_args ''Agile'' ''Martin'', Some alice)]
              = ([Inr ex_pb2], ex_server3)"
    by (simp add: ex_addBook3)
  note t = bookAdded_delivery[OF ex_subscribe0 h2 ex_subscribe h4, of 0]
  have c1: "notifications ex_server 0 = []"
    using t by simp
  have c2: "notifications ex_server1 0 = [ex_pb1]"
    using t by simp
  have c3: "notifications ex_server3 0 = [ex_pb1, ex_pb2]"
    using t by simp
  have c4: "notifications ex_server1s 1 = []"
    using t by simp
  have c5: "notifications ex_server3 1 = [ex_pb2]"
    using t by simp
  have g: "0 < length (srv_bus ex_server1) \<and> s_topic (srv_bus ex_server1 ! 0) = ''BOOK_ADDED''"
    by (simp add: ex_server1_def)
  have h6: "addBooks spec_models (snd (bookAdded_subscribe ex_server3)) []
              = ([], snd (bookAdded_subscribe ex_server3))"
    by simp
  note u = bookAdded_delivery[OF ex_subscribe h4 surjective_pairing h6, of 0]
  have "notifications (snd (bookAdded_subscribe ex_server3)) 0
          = notifications ex_server1 0 @ returned_books [Inr ex_pb2] @ returned_books []"
    using u[THEN conjunct2, THEN conjunct2, THEN conjunct2, THEN conjunct2, THEN conjunct2,
        THEN conjunct2, THEN conjunct2, THEN conjunct2, THEN mp, OF g] .
  then have c6: "notifications (snd (bookAdded_subscribe ex_server3)) 0 = [ex_pb1, ex_pb2]"
    using c2 by simp
  show ?thesis
    using e ex_subscribe0 h2 ex_subscribe h4 c1 c2 c3 c4 c5 g c6 by (intro conjI) simp_all
qed

subsection \<open>login and the tokens it issues\<close>

lemma User_findOne_None:
  "(User_findOne_username d n = None) = (\<forall>u\<in>set (users d). u_username u \<noteq> n)"
  by (simp add: User_findOne_username_def find_None_set)

lemma User_findOne_Some:
  "User_findOne_username d n = Some u \<Longrightarrow> u \<in> set (users d) \<and> u_username u = n"
  using find_Some_set[of "\<lambda>u. u_username u = n" "users d" u]
  by (simp add: User_findOne_username_def)

lemma login_Inr:
  assumes "login K now d args = Inr t"
  obtains u k where "User_findOne_username d (lg_username args) = Some u"
    "lg_password args = ''secret''" "K = Some k" "k \<noteq> []"
    "t = \<lparr>t_value = \<lparr>jwt_claims_of = \<lparr>jc_username = u_username u, jc_id = u_id u,
                                       jc_iat = now, jc_exp = None\<rparr>, jwt_key = k\<rparr>\<rparr>"
  using assms
  by (auto simp: login_def jwt_sign_def Let_def split: option.splits if_splits)

text \<open>
  Claim C4. A login call fails with the one error "wrong credentials" (code
  BAD_USER_INPUT), and so returns no token, when no stored user has the given username
  or when the password is not the reference value \<open>secret\<close>: the two cases give the same
  error. When a stored user has the username, the password is the reference value and a
  signing secret is configured, it returns a token signed under that secret whose claims
  carry the identifier and the username of the stored user.
\<close>

theorem login_credentials:
  "((\<forall>u\<in>set (users d). u_username u \<noteq> lg_username args) \<or> lg_password args \<noteq> ''secret''
      \<longrightarrow> login K now d args = Inl (GraphQLError ''wrong credentials'' ''BAD_USER_INPUT'')) \<and>
   ((\<exists>u\<in>set (users d). u_username u = lg_username args) \<and> lg_password args = ''secret'' \<and>
    K = Some k \<and> k \<noteq> []
      \<longrightarrow> (\<exists>u\<in>set (users d). u_username u = lg_username args \<and>
             User_findOne_username d (lg_username args) = Some u \<and>
             login K now d args =
               Inr \<lparr>t_value = \<lparr>jwt_claims_of = \<lparr>jc_username = u_username u, jc_id = u_id u,
                                                jc_iat = now, jc_exp = None\<rparr>,
                                jwt_key = k\<rparr>\<rparr>))"
proof (intro conjI impI)
  assume "(\<forall>u\<in>set (users d). u_username u \<noteq> lg_username args) \<or> lg_password args \<noteq> ''secret''"
  then show "login K now d args = Inl (GraphQLError ''wrong credentials'' ''BAD_USER_INPUT'')"
    using User_findOne_None[of d "lg_username args"]
    by (auto simp: login_def Let_def split: option.splits)
next
  assume h: "(\<exists>u\<in>set (users d). u_username u = lg_username args) \<and>
    lg_password args = ''secret'' \<and> K = Some k \<and> k \<noteq> []"
  then obtain u where u: "User_findOne_username d (lg_username args) = Some u"
    using User_findOne_None[of d "lg_username args"] by (cases "User_findOne_username d (lg_username args)") auto
  have "u \<in> set (users d)" "u_username u = lg_username args"
    using User_findOne_Some[OF u] by simp_all
  moreover have "login K now d args =
               Inr \<lparr>t_value = \<lparr>jwt_claims_of = \<lparr>jc_username = u_username u, jc_id = u_id u,
                                                jc_iat = now, jc_exp = None\<rparr>,
                                jwt_key = k\<rparr>\<rparr>"
    using h u by (simp add: login_def jwt_sign_def Let_def)
  ultimately show "\<exists>u\<in>set (users d). u_username u = lg_username args \<and>
             User_findOne_username d (lg_username args) = Some u \<and>
             login K now d args =
               Inr \<lparr>t_value = \<lparr>jwt_claims_of = \<lparr>jc_username = u_username u, jc_id = u_id u,
                                                jc_iat = now, jc_exp = None\<rparr>,
                                jwt_key = k\<rparr>\<rparr>"
    using u by blast
qed

theorem login_credentials_witness:
  "lg_password \<lparr>lg_username = ''alice'', lg_password = ''Secret''\<rparr> \<noteq> ''secret'' \<and>
   login (Some ''k'') 100 ex_store \<lparr>lg_username = ''alice'', lg_password = ''Secret''\<rparr>
     = Inl (GraphQLError ''wrong credentials'' ''BAD_USER_INPUT'') \<and>
   login (Some ''k'') 100 ex_store \<lparr>lg_username = ''bob'', lg_password = ''secret''\<rparr>
     = Inl (GraphQLError ''wrong credentials'' ''BAD_USER_INPUT'') \<and>
   alice \<in> set (users ex_store) \<and>
   login (Some ''k'') 100 ex_store \<lparr>lg_username = ''alice'', lg_password = ''secret''\<rparr>
     = Inr \<lparr>t_value = \<lparr>jwt_claims_of = \<lparr>jc_username = ''alice'', jc_id = 1, jc_iat = 100,
                                        jc_exp = None\<rparr>, jwt_key = ''k''\<rparr>\<rparr>"
proof -
  have p1: "lg_password \<lparr>lg_username = ''alice'', lg_password = ''Secret''\<rparr> \<noteq> ''secret''"
    by simp
  have p2: "\<forall>u\<in>set (users ex_store).
      u_username u \<noteq> lg_username \<lparr>lg_username = ''bob'', lg_password = ''secret''\<rparr>"
    by (simp add: ex_store_def alice_def)
  have p3: "(\<exists>u\<in>set (users ex_store).
        u_username u = lg_username \<lparr>lg_username = ''alice'', lg_password = ''secret''\<rparr>) \<and>
      lg_password \<lparr>lg_username = ''alice'', lg_password = ''secret''\<rparr> = ''secret'' \<and>
      Some ''k'' = Some ''k'' \<and> ''k'' \<noteq> []"
    by (simp add: ex_store_def alice_def)
  have a: "alice \<in> set (users ex_store)"
    by (simp add: ex_store_def)
  have f: "User_findOne_username ex_store ''alice'' = Some alice"
    by (simp add: User_findOne_username_def ex_store_def alice_def)
  have c1: "login (Some ''k'') 100 ex_store \<lparr>lg_username = ''alice'', lg_password = ''Secret''\<rparr>
     = Inl (GraphQLError ''wrong credentials'' ''BAD_USER_INPUT'')"
    using login_credentials[of ex_store "\<lparr>lg_username = ''alice'', lg_password = ''Secret''\<rparr>"
        "Some ''k''" 100 "''k''"] p1 by blast
  have c2: "login (Some ''k'') 100 ex_store \<lparr>lg_username = ''bob'', lg_password = ''secret''\<rparr>
     = Inl (GraphQLError ''wrong credentials'' ''BAD_USER_INPUT'')"
    using login_credentials[of ex_store "\<lparr>lg_username = ''bob'', lg_password = ''secret''\<rparr>"
        "Some ''k''" 100 "''k''"] p2 by blast
  have c3: "login (Some ''k'') 100 ex_store \<lparr>lg_username = ''alice'', lg_password = ''secret''\<rparr>
     = Inr \<lparr>t_value = \<lparr>jwt_claims_of = \<lparr>jc_username = ''alice'', jc_id = 1, jc_iat = 100,
                                        jc_exp = None\<rparr>, jwt_key = ''k''\<rparr>\<rparr>"
    using login_credentials[of ex_store "\<lparr>lg_username = ''alice'', lg_password = ''secret''\<rparr>"
        "Some ''k''" 100 "''k''"] p3 f by (auto simp: alice_def)
  show ?thesis using p1 a c1 c2 c3 by (intro conjI)
qed

text \<open>
  Claim C9 as stated fails: the token that login issues to alice at time 100 has no
  expiry claim, and its verification still succeeds at time 4102444800.
\<close>

theorem login_token_no_expiry_counterexample:
  "login (Some ''k'') 100 ex_store \<lparr>lg_username = ''alice'', lg_password = ''secret''\<rparr>
     = Inr \<lparr>t_value = \<lparr>jwt_claims_of = \<lparr>jc_username = ''alice'', jc_id = 1, jc_iat = 100,
                                        jc_exp = None\<rparr>, jwt_key = ''k''\<rparr>\<rparr> \<and>
   jwt_verify_token \<lparr>jwt_claims_of = \<lparr>jc_username = ''alice'', jc_id = 1, jc_iat = 100,
                                      jc_exp = None\<rparr>, jwt_key = ''k''\<rparr> (Some ''k'') 4102444800
     = Inr \<lparr>jc_username = ''alice'', jc_id = 1, jc_iat = 100, jc_exp = None\<rparr>"
  by (simp add: login_def jwt_sign_def jwt_verify_token_def User_findOne_username_def
      ex_store_def alice_def)

text \<open>
  Claim C9, as amended. A token issued by login carries its issue time and no expiry:
  verification under the signing secret returns its claims at every later time, and a
  request that presents it after \<open>Bearer \<close> resolves, at every later time, to the user
  stored under the identifier it carries.
\<close>

theorem login_token_never_expires:
  assumes "login K now d args = Inr t"
  shows "jc_exp (jwt_claims_of (t_value t)) = None \<and>
         jc_iat (jwt_claims_of (t_value t)) = now \<and>
         jwt_verify_token (t_value t) K later = Inr (jwt_claims_of (t_value t)) \<and>
         (tok \<noteq> [] \<and> decode tok = Some (t_value t) \<longrightarrow>
            fst (http_context decode K later d' (Some (''Bearer '' @ tok))) =
              Inr (User_findById d' (jc_id (jwt_claims_of (t_value t)))))"
proof -
  obtain u k where "User_findOne_username d (lg_username args) = Some u"
    "lg_password args = ''secret''" and k: "K = Some k" "k \<noteq> []"
    and t: "t = \<lparr>t_value = \<lparr>jwt_claims_of = \<lparr>jc_username = u_username u, jc_id = u_id u,
                                       jc_iat = now, jc_exp = None\<rparr>, jwt_key = k\<rparr>\<rparr>"
    using assms by (rule login_Inr)
  have v: "jwt_verify_token (t_value t) K later = Inr (jwt_claims_of (t_value t))"
    using k t by (simp add: jwt_verify_token_def)
  have "tok \<noteq> [] \<Longrightarrow> decode tok = Some (t_value t) \<Longrightarrow>
      fst (http_context decode K later d' (Some (''Bearer '' @ tok))) =
        Inr (User_findById d' (jc_id (jwt_claims_of (t_value t))))"
    using v by (simp add: http_context_def startsWith_def substring_def jwt_verify_def)
  then show ?thesis
    using v t by simp
qed

theorem login_token_never_expires_witness:
  "login (Some ''k'') 100 ex_store \<lparr>lg_username = ''alice'', lg_password = ''secret''\<rparr>
     = Inr \<lparr>t_value = \<lparr>jwt_claims_of = \<lparr>jc_username = ''alice'', jc_id = 1, jc_iat = 100,
                                        jc_exp = None\<rparr>, jwt_key = ''k''\<rparr>\<rparr> \<and>
   jwt_verify_token \<lparr>jwt_claims_of = \<lparr>jc_username = ''alice'', jc_id = 1, jc_iat = 100,
                                      jc_exp = None\<rparr>, jwt_key = ''k''\<rparr> (Some ''k'') 4102444800
     = Inr \<lparr>jc_username = ''alice'', jc_id = 1, jc_iat = 100, jc_exp = None\<rparr> \<and>
   fst (http_context
          (\<lambda>s. if s = ''tok'' then Some \<lparr>jwt_claims_of = \<lparr>jc_username = ''alice'', jc_id = 1,
                  jc_iat = 100, jc_exp = None\<rparr>, jwt_key = ''k''\<rparr> else None)
          (Some ''k'') 4102444800 ex_store (Some (''Bearer '' @ ''tok''))) = Inr (Some alice)"
proof -
  define T where "T = \<lparr>jwt_claims_of = \<lparr>jc_username = ''alice'', jc_id = 1, jc_iat = 100,
                                        jc_exp = None\<rparr>, jwt_key = ''k''\<rparr>"
  define decode where "decode = (\<lambda>s. if s = ''tok'' then Some T else None)"
  have h: "login (Some ''k'') 100 ex_store \<lparr>lg_username = ''alice'', lg_password = ''secret''\<rparr>
     = Inr \<lparr>t_value = T\<rparr>"
    by (simp add: T_def login_def jwt_sign_def User_findOne_username_def ex_store_def alice_def)
  note t = login_token_never_expires[OF h, where later = 4102444800 and tok = "''tok''"
      and decode = decode and d' = ex_store]
  have v: "jwt_verify_token T (Some ''k'') 4102444800 = Inr (jwt_claims_of T)"
    using t[THEN conjunct2, THEN conjunct2, THEN conjunct1] by simp
  have pre: "''tok'' \<noteq> [] \<and> decode ''tok'' = Some (t_value \<lparr>t_value = T\<rparr>)"
    by (simp add: decode_def)
  have c0: "fst (http_context decode (Some ''k'') 4102444800 ex_store (Some (''Bearer '' @ ''tok'')))
          = Inr (User_findById ex_store (jc_id (jwt_claims_of (t_value \<lparr>t_value = T\<rparr>))))"
    using t[THEN conjunct2, THEN conjunct2, THEN conjunct2, THEN mp, OF pre] .
  have u: "User_findById ex_store (jc_id (jwt_claims_of (t_value \<lparr>t_value = T\<rparr>))) = Some alice"
    by (simp add: T_def User_findById_def ex_store_def alice_def)
  have c: "fst (http_context decode (Some ''k'') 4102444800 ex_store (Some (''Bearer '' @ ''tok'')))
      = Inr (Some alice)"
    using c0 u by (rule trans[OF _ arg_cong[of _ _ Inr]])
  have claims: "jwt_claims_of T = \<lparr>jc_username = ''alice'', jc_id = 1, jc_iat = 100, jc_exp = None\<rparr>"
    by (simp add: T_def)
  show ?thesis
    using h v[unfolded claims] c unfolding decode_def T_def by (intro conjI)
qed

subsection \<open>The request context\<close>

text \<open>
  Claim C10. For a request whose Authorization header is present and does not start
  with \<open>Bearer \<close>, the context function returns no current user, raises nothing, makes no
  call to jwt.verify nor to the store, and returns what it returns when the header is
  absent.
\<close>

theorem http_context_not_bearer:
  assumes "\<not> startsWith auth ''Bearer ''"
  shows "http_context decode K now d (Some auth) = (Inr None, []) \<and>
         http_context decode K now d (Some auth) = http_context decode K now d None"
  using assms by (simp add: http_context_def)

theorem http_context_not_bearer_witness:
  "\<not> startsWith ''bearer abc'' ''Bearer '' \<and>
   http_context (\<lambda>s. None) (Some ''k'') 100 ex_store (Some ''bearer abc'') = (Inr None, []) \<and>
   http_context (\<lambda>s. None) (Some ''k'') 100 ex_store (Some ''bearer abc'')
     = http_context (\<lambda>s. None) (Some ''k'') 100 ex_store None"
proof -
  have h: "\<not> startsWith ''bearer abc'' ''Bearer ''"
    by (simp add: startsWith_def)
  have c: "http_context (\<lambda>s. None) (Some ''k'') 100 ex_store (Some ''bearer abc'') = (Inr None, []) \<and>
      http_context (\<lambda>s. None) (Some ''k'') 100 ex_store (Some ''bearer abc'')
        = http_context (\<lambda>s. None) (Some ''k'') 100 ex_store None"
    using http_context_not_bearer[OF h] .
  show ?thesis
    using h c by blast
qed

subsection \<open>editAuthor\<close>

lemma replace_author_map:
  "distinct (map a_id xs) \<Longrightarrow> a \<in> set xs \<Longrightarrow> a_id a' = a_id a \<Longrightarrow>
     replace_author a' xs = map (\<lambda>x. if a_id x = a_id a then a' else x) xs"
proof (induction xs)
  case Nil
  then show ?case by simp
next
  case (Cons x xs)
  show ?case
  proof (cases "a_id x = a_id a")
    case True
    then have "\<forall>y\<in>set xs. a_id y \<noteq> a_id a"
      using Cons.prems(1) by (auto simp: image_iff)
    then have "map (\<lambda>x. if a_id x = a_id a then a' else x) xs = xs"
      by (simp add: map_idI)
    then show ?thesis using True Cons.prems(3) by simp
  next
    case False
    then have "a \<in> set xs" using Cons.prems(2) by auto
    then show ?thesis using False Cons by simp
  qed
qed

lemma replace_author_ids:
  "map a_id (replace_author a' xs) = map a_id xs"
  by (induction xs) auto

lemma findOne_name_Some:
  "Author_findOne_name d n = Some a \<Longrightarrow> a \<in> set (authors d) \<and> a_name a = n"
  using find_Some_set[of "\<lambda>a. a_name a = n" "authors d" a]
  by (simp add: Author_findOne_name_def)

text \<open>
  Claim C7. An editAuthor call without a current user fails with "not authenticated"
  (code UNAUTHENTICATED) and leaves the store as it is. With a current user and a name
  that no stored author has, it returns null and leaves the store as it is. With a
  current user and a matching author (the first stored author of that name), when the
  schema accepts the modified document, it returns that author with \<open>born\<close> set to
  \<open>setBornTo\<close>, stores it in place of the matching author and changes nothing else; a
  lookup by its id then gives the updated author.
\<close>

theorem editAuthor_cases:
  "editAuthor M d args None = (Inl (GraphQLError ''not authenticated'' ''UNAUTHENTICATED''), d) \<and>
   ((\<forall>a\<in>set (authors d). a_name a \<noteq> ea_name args)
      \<longrightarrow> editAuthor M d args (Some u) = (Inr None, d)) \<and>
   (wf_store d \<and> Author_findOne_name d (ea_name args) = Some a \<and>
    author_update M d (a\<lparr>a_born := Some (ea_setBornTo args)\<rparr>)
      \<longrightarrow> a \<in> set (authors d) \<and> a_name a = ea_name args \<and>
          editAuthor M d args (Some u) =
            (Inr (Some (a\<lparr>a_born := Some (ea_setBornTo args)\<rparr>)),
             d\<lparr>authors := map (\<lambda>x. if a_id x = a_id a
                                    then a\<lparr>a_born := Some (ea_setBornTo args)\<rparr> else x)
                               (authors d)\<rparr>) \<and>
          Author_findById (snd (editAuthor M d args (Some u))) (a_id a) =
            Some (a\<lparr>a_born := Some (ea_setBornTo args)\<rparr>))"
proof (intro conjI impI)
  show "editAuthor M d args None = (Inl (GraphQLError ''not authenticated'' ''UNAUTHENTICATED''), d)"
    by (simp add: editAuthor_def)
next
  assume "\<forall>a\<in>set (authors d). a_name a \<noteq> ea_name args"
  then have "Author_findOne_name d (ea_name args) = None"
    by (simp add: findOne_name_None)
  then show "editAuthor M d args (Some u) = (Inr None, d)"
    by (simp add: editAuthor_def)
next
  let ?a' = "a\<lparr>a_born := Some (ea_setBornTo args)\<rparr>"
  let ?d' = "d\<lparr>authors := map (\<lambda>x. if a_id x = a_id a then ?a' else x) (authors d)\<rparr>"
  assume h: "wf_store d \<and> Author_findOne_name d (ea_name args) = Some a \<and> author_update M d ?a'"
  then have mem: "a \<in> set (authors d)" "a_name a = ea_name args"
    using findOne_name_Some[of d "ea_name args" a] by simp_all
  have dist: "distinct (map a_id (authors d))"
    using h by (simp add: wf_store_def)
  have rep: "replace_author ?a' (authors d) = map (\<lambda>x. if a_id x = a_id a then ?a' else x) (authors d)"
    using replace_author_map[OF dist mem(1), of ?a'] by simp
  have res: "editAuthor M d args (Some u) = (Inr (Some ?a'), ?d')"
    using h rep by (simp add: editAuthor_def Let_def)
  have auth': "authors ?d' = map (\<lambda>x. if a_id x = a_id a then ?a' else x) (authors d)"
    by simp
  have "map a_id (authors ?d') = map a_id (authors d)"
    unfolding auth' using replace_author_ids[of ?a' "authors d"] unfolding rep .
  then have dist': "distinct (map a_id (authors ?d'))"
    using dist by (simp only:)
  have "?a' \<in> set (authors ?d')"
    using mem(1) by (auto simp: image_iff)
  then have "find (\<lambda>x. a_id x = a_id ?a') (authors ?d') = Some ?a'"
    using dist' by (rule find_by_id_distinct[rotated])
  then have look: "Author_findById (snd (editAuthor M d args (Some u))) (a_id a) = Some ?a'"
    using res by (simp add: Author_findById_def)
  show "a \<in> set (authors d)" by (rule mem(1))
  show "a_name a = ea_name args" by (rule mem(2))
  show "editAuthor M d args (Some u) = (Inr (Some ?a'), ?d')" by (rule res)
  show "Author_findById (snd (editAuthor M d args (Some u))) (a_id a) = Some ?a'" by (rule look)
qed

subsection \<open>allAuthors\<close>

lemma allAuthors_rows:
  "allAuthors d =
     map (\<lambda>a. \<lparr>r_id = a_id a, r_name = a_name a, r_born = a_born a, r_books = None,
                r_bookCount = Some (length (filter (\<lambda>b. b_author b = a_id a) (books d)))\<rparr>)
       (authors d)"
  by (simp add: allAuthors_def project_books_0_def addFields_bookCount_def lookup_books_def
      from_author_def)

text \<open>
  Claim C8. The allAuthors result has one row for each stored author, in store order,
  and the \<open>bookCount\<close> of every row is present and equals the number of stored books whose
  author reference is the row's identifier, computed from the books at the time of the
  query; for an author that no book references it is 0.
\<close>

theorem allAuthors_bookCount:
  "map r_id (allAuthors d) = map a_id (authors d) \<and>
   map r_name (allAuthors d) = map a_name (authors d) \<and>
   (\<forall>r\<in>set (allAuthors d).
      r_bookCount r = Some (length (filter (\<lambda>b. b_author b = r_id r) (books d))) \<and>
      ((\<forall>b\<in>set (books d). b_author b \<noteq> r_id r) \<longrightarrow> r_bookCount r = Some 0))"
proof -
  have "\<And>r. (\<forall>b\<in>set (books d). b_author b \<noteq> r_id r) \<Longrightarrow>
      filter (\<lambda>b. b_author b = r_id r) (books d) = []"
    by (simp add: filter_empty_conv)
  then show ?thesis
    by (auto simp: allAuthors_rows comp_def)
qed

theorem editAuthor_cases_witness:
  "Author_findOne_name ex_store ''Nobody'' = None \<and>
   editAuthor spec_models ex_store \<lparr>ea_name = ''Nobody'', ea_setBornTo = 1961\<rparr> (Some alice)
     = (Inr None, ex_store) \<and>
   wf_store ex_store \<and> Author_findOne_name ex_store ''Beck'' = Some beck \<and>
   fst (editAuthor spec_models ex_store \<lparr>ea_name = ''Beck'', ea_setBornTo = 1961\<rparr> (Some alice))
     = Inr (Some \<lparr>a_id = 4, a_name = ''Beck'', a_born = Some 1961\<rparr>) \<and>
   Author_findById
     (snd (editAuthor spec_models ex_store \<lparr>ea_name = ''Beck'', ea_setBornTo = 1961\<rparr> (Some alice))) 4
     = Some \<lparr>a_id = 4, a_name = ''Beck'', a_born = Some 1961\<rparr>"
proof -
  let ?no = "\<lparr>ea_name = ''Nobody'', ea_setBornTo = 1961\<rparr>"
  let ?yes = "\<lparr>ea_name = ''Beck'', ea_setBornTo = 1961\<rparr>"
  have n: "\<forall>a\<in>set (authors ex_store). a_name a \<noteq> ea_name ?no"
    by (simp add: ex_store_def)
  have f: "Author_findOne_name ex_store (ea_name ?yes) = Some beck"
    by (simp add: Author_findOne_name_def ex_store_def beck_def)
  have ok: "author_update spec_models ex_store (beck\<lparr>a_born := Some (ea_setBornTo ?yes)\<rparr>)"
    by (simp add: spec_models_def beck_def)
  have c1: "editAuthor spec_models ex_store ?no (Some alice) = (Inr None, ex_store)"
    using editAuthor_cases[of spec_models ex_store ?no alice beck, THEN conjunct2, THEN conjunct1] n
    by (rule mp)
  note c2 = editAuthor_cases[of spec_models ex_store ?yes alice beck,
      THEN conjunct2, THEN conjunct2, THEN mp, OF conjI[OF wf_ex_store conjI[OF f ok]]]
  have r1: "fst (editAuthor spec_models ex_store ?yes (Some alice))
     = Inr (Some \<lparr>a_id = 4, a_name = ''Beck'', a_born = Some 1961\<rparr>)"
    using c2[THEN conjunct2, THEN conjunct2, THEN conjunct1] by (simp add: beck_def)
  have r2: "Author_findById (snd (editAuthor spec_models ex_store ?yes (Some alice))) 4
     = Some \<lparr>a_id = 4, a_name = ''Beck'', a_born = Some 1961\<rparr>"
    using c2[THEN conjunct2, THEN conjunct2, THEN conjunct2] by (simp add: beck_def)
  have n': "Author_findOne_name ex_store ''Nobody'' = None"
    by (simp add: Author_findOne_name_def ex_store_def)
  show ?thesis
    using n' c1 wf_ex_store f r1 r2 by simp
qed

theorem allAuthors_bookCount_witness:
  "allAuthors ex_store =
      [\<lparr>r_id = 2, r_name = ''Fowler'', r_born = Some 1963, r_books = None, r_bookCount = Some 1\<rparr>,
       \<lparr>r_id = 4, r_name = ''Beck'', r_born = None, r_books = None, r_bookCount = Some 0\<rparr>] \<and>
   list_all (\<lambda>b. b_author b \<noteq> 4) (books ex_store) \<and>
   r_bookCount (allAuthors ex_store ! 1) = Some 0 \<and>
   r_bookCount (allAuthors ex_store ! 0)
     = Some (length (filter (\<lambda>b. b_author b = 2) (books ex_store)))"
proof -
  have rows: "allAuthors ex_store =
      [\<lparr>r_id = 2, r_name = ''Fowler'', r_born = Some 1963, r_books = None, r_bookCount = Some 1\<rparr>,
       \<lparr>r_id = 4, r_name = ''Beck'', r_born = None, r_books = None, r_bookCount = Some 0\<rparr>]"
    by (simp add: allAuthors_rows ex_store_def)
  have m0: "allAuthors ex_store ! 0 \<in> set (allAuthors ex_store)"
    and m1: "allAuthors ex_store ! 1 \<in> set (allAuthors ex_store)"
    by (simp_all add: rows)
  have id0: "r_id (allAuthors ex_store ! 0) = 2" and id1: "r_id (allAuthors ex_store ! 1) = 4"
    by (simp_all add: rows)
  have none: "\<forall>b\<in>set (books ex_store). b_author b \<noteq> r_id (allAuthors ex_store ! 1)"
    unfolding id1 by (simp add: ex_store_def)
  note t = allAuthors_bookCount[of ex_store, THEN conjunct2, THEN conjunct2]
  have c1: "r_bookCount (allAuthors ex_store ! 1) = Some 0"
    using t[THEN bspec, OF m1, THEN conjunct2, THEN mp, OF none] .
  have c0: "r_bookCount (allAuthors ex_store ! 0)
     = Some (length (filter (\<lambda>b. b_author b = 2) (books ex_store)))"
    using t[THEN bspec, OF m0, THEN conjunct1] unfolding id0 .
  have l: "list_all (\<lambda>b. b_author b \<noteq> 4) (books ex_store)"
    by (simp add: ex_store_def)
  show ?thesis
    using rows l c1 c0 by (intro conjI)
qed

subsection \<open>allBooks\<close>

lemma Book_find_all: "Book_find d \<lparr>f_author = None, f_genres_in = None\<rparr> = books d"
  unfolding Book_find_def by (rule filter_True) (simp add: matches_def)

lemma Book_find_genre:
  "Book_find d \<lparr>f_author = None, f_genres_in = Some [g]\<rparr>
     = filter (\<lambda>b. g \<in> set (b_genres b)) (books d)"
  unfolding Book_find_def by (rule filter_cong) (auto simp: matches_def list_ex_iff)

lemma Book_find_author:
  "Book_find d \<lparr>f_author = Some i, f_genres_in = None\<rparr>
     = filter (\<lambda>b. b_author b = i) (books d)"
  unfolding Book_find_def by (rule filter_cong) (auto simp: matches_def)

lemma Book_find_both:
  "Book_find d \<lparr>f_author = Some i, f_genres_in = Some [g]\<rparr>
     = filter (\<lambda>b. b_author b = i \<and> g \<in> set (b_genres b)) (books d)"
  unfolding Book_find_def by (rule filter_cong) (auto simp: matches_def list_ex_iff)

lemma Book_find_subset: "set (Book_find d f) \<subseteq> set (books d)"
  by (simp add: Book_find_def)

lemma allBooks_subset: "set (allBooks d args) \<subseteq> populate d ` set (books d)"
  using Book_find_subset by (fastforce simp: allBooks_def split: option.splits)

lemma findById_Some: "Author_findById d i = Some a \<Longrightarrow> a \<in> set (authors d) \<and> a_id a = i"
  using find_Some_set[of "\<lambda>a. a_id a = i" "authors d" a] by (simp add: Author_findById_def)

lemma wf_populate:
  assumes "wf_store d" "b \<in> set (books d)"
  shows "\<exists>a\<in>set (authors d). pb_author (populate d b) = Some a \<and> a_id a = b_author b"
proof -
  have "Author_findById d (b_author b) \<noteq> None"
    using assms by (simp add: wf_store_def list_all_iff)
  then obtain a where "Author_findById d (b_author b) = Some a" by blast
  then show ?thesis
    using findById_Some[of d "b_author b" a] by (auto simp: populate_def)
qed

text \<open>
  Claim C5 as stated fails on the empty string. No stored author is named by the empty
  string, yet allBooks with that author argument returns the stored book and not the
  empty sequence; and no stored book has the empty string among its genres, yet allBooks
  with that genre argument returns the stored book.
\<close>

theorem allBooks_empty_string_counterexample:
  "Author_findOne_name ex_store '''' = None \<and>
   allBooks ex_store \<lparr>al_author = Some '''', al_genre = None\<rparr> = [ex_pb0] \<and>
   filter (\<lambda>b. '''' \<in> set (b_genres b)) (books ex_store) = [] \<and>
   allBooks ex_store \<lparr>al_author = None, al_genre = Some ''''\<rparr> = [ex_pb0]"
  by (simp add: allBooks_def author_step_def genre_step_def truthy_def Book_find_all
      Author_findOne_name_def Author_findById_def populate_def ex_store_def ex_pb0_def)

text \<open>
  Claim C5, as amended. With an author argument that is not empty and names no stored
  author, allBooks returns the empty sequence, whatever the genre argument. With no
  argument it returns every stored book. With a genre argument that is not empty and no
  author argument, it returns the stored books whose genres contain it. With an author
  argument that is not empty and names a stored author, it returns the books that refer
  to the first stored author of that name, and with a genre argument that is not empty
  as well, those of them whose genres contain it. An argument that is the empty string
  is treated as absent. The books come in store order, each with its own identifier,
  title, year and genres, and in a well-formed store each carries in its author field
  the stored Author whose identifier is the book's author reference.
\<close>

theorem allBooks_filters:
  "(n \<noteq> [] \<and> (\<forall>a\<in>set (authors d). a_name a \<noteq> n)
      \<longrightarrow> allBooks d \<lparr>al_author = Some n, al_genre = go\<rparr> = []) \<and>
   allBooks d \<lparr>al_author = None, al_genre = None\<rparr> = map (populate d) (books d) \<and>
   (g \<noteq> []
      \<longrightarrow> allBooks d \<lparr>al_author = None, al_genre = Some g\<rparr>
            = map (populate d) (filter (\<lambda>b. g \<in> set (b_genres b)) (books d))) \<and>
   (n \<noteq> [] \<and> Author_findOne_name d n = Some a
      \<longrightarrow> allBooks d \<lparr>al_author = Some n, al_genre = None\<rparr>
            = map (populate d) (filter (\<lambda>b. b_author b = a_id a) (books d))) \<and>
   (n \<noteq> [] \<and> g \<noteq> [] \<and> Author_findOne_name d n = Some a
      \<longrightarrow> allBooks d \<lparr>al_author = Some n, al_genre = Some g\<rparr>
            = map (populate d)
                (filter (\<lambda>b. b_author b = a_id a \<and> g \<in> set (b_genres b)) (books d))) \<and>
   allBooks d \<lparr>al_author = Some '''', al_genre = go\<rparr> = allBooks d \<lparr>al_author = None, al_genre = go\<rparr> \<and>
   allBooks d \<lparr>al_author = no, al_genre = Some ''''\<rparr> = allBooks d \<lparr>al_author = no, al_genre = None\<rparr> \<and>
   (wf_store d
      \<longrightarrow> (\<forall>b\<in>set (books d). \<exists>a\<in>set (authors d). a_id a = b_author b \<and>
             populate d b =
               \<lparr>pb_id = b_id b, pb_title = b_title b, pb_published = b_published b,
                pb_author = Some a, pb_genres = b_genres b\<rparr>) \<and>
          (\<forall>pb\<in>set (allBooks d args). \<exists>b\<in>set (books d). \<exists>a\<in>set (authors d).
             a_id a = b_author b \<and>
             pb = \<lparr>pb_id = b_id b, pb_title = b_title b, pb_published = b_published b,
                   pb_author = Some a, pb_genres = b_genres b\<rparr>))"
proof (intro conjI impI)
  assume "n \<noteq> [] \<and> (\<forall>a\<in>set (authors d). a_name a \<noteq> n)"
  then have "n \<noteq> []" "Author_findOne_name d n = None"
    by (simp_all add: findOne_name_None)
  then show "allBooks d \<lparr>al_author = Some n, al_genre = go\<rparr> = []"
    by (simp add: allBooks_def author_step_def truthy_def)
next
  show "allBooks d \<lparr>al_author = None, al_genre = None\<rparr> = map (populate d) (books d)"
    by (simp add: allBooks_def author_step_def genre_step_def Book_find_all)
next
  assume "g \<noteq> []"
  then show "allBooks d \<lparr>al_author = None, al_genre = Some g\<rparr>
            = map (populate d) (filter (\<lambda>b. g \<in> set (b_genres b)) (books d))"
    by (simp add: allBooks_def author_step_def genre_step_def truthy_def Book_find_genre)
next
  assume "n \<noteq> [] \<and> Author_findOne_name d n = Some a"
  then show "allBooks d \<lparr>al_author = Some n, al_genre = None\<rparr>
            = map (populate d) (filter (\<lambda>b. b_author b = a_id a) (books d))"
    by (simp add: allBooks_def author_step_def genre_step_def truthy_def Book_find_author)
next
  assume "n \<noteq> [] \<and> g \<noteq> [] \<and> Author_findOne_name d n = Some a"
  then show "allBooks d \<lparr>al_author = Some n, al_genre = Some g\<rparr>
            = map (populate d)
                (filter (\<lambda>b. b_author b = a_id a \<and> g \<in> set (b_genres b)) (books d))"
    by (simp add: allBooks_def author_step_def genre_step_def truthy_def Book_find_both)
next
  show "allBooks d \<lparr>al_author = Some '''', al_genre = go\<rparr> = allBooks d \<lparr>al_author = None, al_genre = go\<rparr>"
    by (simp add: allBooks_def author_step_def genre_step_def truthy_def)
next
  show "allBooks d \<lparr>al_author = no, al_genre = Some ''''\<rparr> = allBooks d \<lparr>al_author = no, al_genre = None\<rparr>"
    by (simp add: allBooks_def author_step_def genre_step_def truthy_def split: option.splits)
next
  assume wf: "wf_store d"
  have pop: "\<exists>a\<in>set (authors d). a_id a = b_author b \<and>
             populate d b =
               \<lparr>pb_id = b_id b, pb_title = b_title b, pb_published = b_published b,
                pb_author = Some a, pb_genres = b_genres b\<rparr>" if bm: "b \<in> set (books d)" for b
  proof -
    obtain a where "a \<in> set (authors d)" "pb_author (populate d b) = Some a" "a_id a = b_author b"
      using wf_populate[OF wf bm] by blast
    then show ?thesis
      by (intro bexI[of _ a]) (simp_all add: populate_def)
  qed
  then show "\<forall>b\<in>set (books d). \<exists>a\<in>set (authors d). a_id a = b_author b \<and>
             populate d b =
               \<lparr>pb_id = b_id b, pb_title = b_title b, pb_published = b_published b,
                pb_author = Some a, pb_genres = b_genres b\<rparr>"
    by blast
  show "\<forall>pb\<in>set (allBooks d args). \<exists>b\<in>set (books d). \<exists>a\<in>set (authors d).
             a_id a = b_author b \<and>
             pb = \<lparr>pb_id = b_id b, pb_title = b_title b, pb_published = b_published b,
                   pb_author = Some a, pb_genres = b_genres b\<rparr>"
  proof
    fix pb assume "pb \<in> set (allBooks d args)"
    then obtain b where b: "b \<in> set (books d)" "pb = populate d b"
      using allBooks_subset[of d args] by auto
    show "\<exists>b\<in>set (books d). \<exists>a\<in>set (authors d).
             a_id a = b_author b \<and>
             pb = \<lparr>pb_id = b_id b, pb_title = b_title b, pb_published = b_published b,
                   pb_author = Some a, pb_genres = b_genres b\<rparr>"
      using pop[OF b(1)] b by blast
  qed
qed

lemma wf_ex_store1: "wf_store ex_store1"
  by (simp add: wf_store_def ex_store1_def ex_store_def martin_def Author_findById_def)

theorem allBooks_filters_witness:
  "wf_store ex_store1 \<and>
   allBooks ex_store1 \<lparr>al_author = None, al_genre = None\<rparr> = [ex_pb0, ex_pb1] \<and>
   pb_author ex_pb0 = Some fowler \<and> pb_author ex_pb1 = Some martin \<and>
   allBooks ex_store1 \<lparr>al_author = Some ''Nobody'', al_genre = Some ''design''\<rparr> = [] \<and>
   allBooks ex_store1 \<lparr>al_author = None, al_genre = Some ''agile''\<rparr> = [ex_pb1] \<and>
   allBooks ex_store1 \<lparr>al_author = Some ''Martin'', al_genre = None\<rparr> = [ex_pb1] \<and>
   allBooks ex_store1 \<lparr>al_author = Some ''Fowler'', al_genre = Some ''design''\<rparr> = [ex_pb0] \<and>
   allBooks ex_store1 \<lparr>al_author = Some ''Fowler'', al_genre = Some ''agile''\<rparr> = [] \<and>
   allBooks ex_store1 \<lparr>al_author = Some '''', al_genre = Some ''agile''\<rparr> = [ex_pb1] \<and>
   allBooks ex_store1 \<lparr>al_author = Some ''Martin'', al_genre = Some ''''\<rparr> = [ex_pb1]"
proof -
  let ?b0 = "\<lparr>b_id = 3, b_title = ''Refactoring'', b_published = 2018,
      b_author = 2, b_genres = [''design'', ''refactoring'']\<rparr>"
  let ?b1 = "\<lparr>b_id = 6, b_title = ''Clean'', b_published = 2000, b_author = 5,
      b_genres = [''agile'']\<rparr>"
  let ?none = "\<lparr>al_author = None, al_genre = None\<rparr>"
  have nobody: "''Nobody'' \<noteq> [] \<and> (\<forall>a\<in>set (authors ex_store1). a_name a \<noteq> ''Nobody'')"
    by (simp add: ex_store1_def ex_store_def martin_def)
  have fF: "Author_findOne_name ex_store1 ''Fowler'' = Some fowler"
    and fM: "Author_findOne_name ex_store1 ''Martin'' = Some martin"
    by (simp_all add: Author_findOne_name_def ex_store1_def ex_store_def fowler_def martin_def)
  have bks: "books ex_store1 = [?b0, ?b1]"
    by (simp add: ex_store1_def ex_store_def)
  have ids: "a_id fowler = 2" "a_id martin = 5"
    by (simp_all add: fowler_def martin_def)
  note tN = allBooks_filters[of "''Nobody''" ex_store1 "Some ''design''" "''agile''" martin None ?none]
  note tM = allBooks_filters[of "''Martin''" ex_store1 "Some ''agile''" "''agile''" martin
      "Some ''Martin''" ?none]
  note tF = allBooks_filters[of "''Fowler''" ex_store1 None "''design''" fowler None ?none]
  note tG = allBooks_filters[of "''Fowler''" ex_store1 None "''agile''" fowler None ?none]
  note res = tM[THEN conjunct2, THEN conjunct2, THEN conjunct2, THEN conjunct2,
      THEN conjunct2, THEN conjunct2, THEN conjunct2, THEN mp, OF wf_ex_store1, THEN conjunct1]
  have m0: "?b0 \<in> set (books ex_store1)" and m1: "?b1 \<in> set (books ex_store1)"
    by (simp_all add: bks)
  have p0: "populate ex_store1 ?b0 = ex_pb0"
  proof -
    obtain a where a: "a \<in> set (authors ex_store1)" "a_id a = b_author ?b0"
      "populate ex_store1 ?b0 = \<lparr>pb_id = b_id ?b0, pb_title = b_title ?b0,
         pb_published = b_published ?b0, pb_author = Some a, pb_genres = b_genres ?b0\<rparr>"
      using res[THEN bspec, OF m0] by blast
    have "a = fowler"
      using a(1,2) by (auto simp: ex_store1_def ex_store_def martin_def fowler_def)
    then show ?thesis
      using a(3) by (simp add: ex_pb0_def fowler_def)
  qed
  have p1: "populate ex_store1 ?b1 = ex_pb1"
  proof -
    obtain a where a: "a \<in> set (authors ex_store1)" "a_id a = b_author ?b1"
      "populate ex_store1 ?b1 = \<lparr>pb_id = b_id ?b1, pb_title = b_title ?b1,
         pb_published = b_published ?b1, pb_author = Some a, pb_genres = b_genres ?b1\<rparr>"
      using res[THEN bspec, OF m1] by blast
    have "a = martin"
      using a(1,2) by (auto simp: ex_store1_def ex_store_def martin_def)
    then show ?thesis
      using a(3) by (simp add: ex_pb1_def)
  qed
  have c0: "allBooks ex_store1 ?none = [ex_pb0, ex_pb1]"
    using tM[THEN conjunct2, THEN conjunct1] by (simp add: bks p0 p1)
  have c1: "allBooks ex_store1 \<lparr>al_author = Some ''Nobody'', al_genre = Some ''design''\<rparr> = []"
    using tN[THEN conjunct1, THEN mp, OF nobody] .
  have c2: "allBooks ex_store1 \<lparr>al_author = None, al_genre = Some ''agile''\<rparr> = [ex_pb1]"
    using tM[THEN conjunct2, THEN conjunct2, THEN conjunct1] by (simp add: bks p1)
  have c3: "allBooks ex_store1 \<lparr>al_author = Some ''Martin'', al_genre = None\<rparr> = [ex_pb1]"
    using tM[THEN conjunct2, THEN conjunct2, THEN conjunct2, THEN conjunct1] fM
    by (simp add: bks p1 ids)
  have c4: "allBooks ex_store1 \<lparr>al_author = Some ''Fowler'', al_genre = Some ''design''\<rparr> = [ex_pb0]"
    using tF[THEN conjunct2, THEN conjunct2, THEN conjunct2, THEN conjunct2, THEN conjunct1] fF
    by (simp add: bks p0 ids)
  have c5: "allBooks ex_store1 \<lparr>al_author = Some ''Fowler'', al_genre = Some ''agile''\<rparr> = []"
    using tG[THEN conjunct2, THEN conjunct2, THEN conjunct2, THEN conjunct2, THEN conjunct1] fF
    by (simp add: bks ids)
  have c6: "allBooks ex_store1 \<lparr>al_author = Some '''', al_genre = Some ''agile''\<rparr> = [ex_pb1]"
    using tM[THEN conjunct2, THEN conjunct2, THEN conjunct2, THEN conjunct2, THEN conjunct2,
        THEN conjunct1] c2 by simp
  have c7: "allBooks ex_store1 \<lparr>al_author = Some ''Martin'', al_genre = Some ''''\<rparr> = [ex_pb1]"
    using tM[THEN conjunct2, THEN conjunct2, THEN conjunct2, THEN conjunct2, THEN conjunct2,
        THEN conjunct2, THEN conjunct1] c3 by simp
  have au: "pb_author ex_pb0 = Some fowler" "pb_author ex_pb1 = Some martin"
    by (simp_all add: ex_pb0_def ex_pb1_def fowler_def)
  show ?thesis
    using wf_ex_store1 c0 au c1 c2 c3 c4 c5 c6 c7 by (intro conjI)
qed

subsection \<open>The mutations keep the store well formed\<close>

lemma wf_empty_store: "wf_store \<lparr>users = [], authors = [], books = []\<rparr>"
  by (simp add: wf_store_def)

lemma findById_append:
  "Author_findById d i \<noteq> None \<Longrightarrow> Author_findById (d\<lparr>authors := authors d @ [a]\<rparr>) i \<noteq> None"
  by (auto simp: Author_findById_def find_append split: option.splits)

lemma find_or_create_wf:
  assumes "wf_store d" "find_or_create_author M d n = (r, d1)"
  shows "wf_store d1"
proof -
  consider "d1 = d" | "Author_findOne_name d n = None" "d1 = d\<lparr>authors := authors d @ [new_Author d n]\<rparr>"
    using find_or_create_cases[OF assms(2)] by auto
  then show ?thesis
  proof cases
    case 1
    then show ?thesis using assms(1) by simp
  next
    case 2
    have "distinct (map a_id (authors d1))"
      using assms(1) 2(2) new_ObjectId_not_author[of d]
      by (simp add: wf_store_def new_Author_def)
    moreover have "list_all (\<lambda>b. Author_findById d1 (b_author b) \<noteq> None) (books d1)"
      using assms(1) 2(2) findById_append[of d _ "new_Author d n"]
      by (simp add: wf_store_def list_all_iff)
    ultimately show ?thesis by (simp add: wf_store_def)
  qed
qed

lemma addBook_wf:
  assumes "wf_store (srv_db s)" "addBook M s args c = (r, s')"
  shows "wf_store (srv_db s')"
proof (cases c)
  case None
  then show ?thesis using assms by (simp add: addBook_def)
next
  case (Some u)
  obtain r0 d1 where foc: "find_or_create_author M (srv_db s) (ab_author args) = (r0, d1)"
    by (cases "find_or_create_author M (srv_db s) (ab_author args)")
  have wf1: "wf_store d1"
    using find_or_create_wf[OF assms(1) foc] .
  show ?thesis
  proof (cases r0)
    case (Inl e)
    then show ?thesis using assms(2) Some foc wf1 by (auto simp: addBook_def)
  next
    case (Inr a)
    have res: "Author_findById d1 (a_id a) = Some a"
      using find_or_create_resolves[of "srv_db s" M "ab_author args" a d1] foc Inr assms(1)
      by (simp add: wf_store_def)
    let ?b = "new_Book d1 args (a_id a)"
    have wf2: "wf_store (d1\<lparr>books := books d1 @ [?b]\<rparr>)"
      using wf1 res by (simp add: wf_store_def Author_findById_def new_Book_def)
    show ?thesis
    proof (cases "book_insert M d1 ?b")
      case True
      then show ?thesis
        using addBook_success[of M s args a d1 u] foc Inr assms(2) Some wf2 by auto
    next
      case False
      then show ?thesis
        using assms(2) Some foc Inr wf1 by (auto simp: addBook_def Let_def)
    qed
  qed
qed

lemma findById_None_ids:
  "(Author_findById d i = None) = (i \<notin> set (map a_id (authors d)))"
  by (auto simp: Author_findById_def find_None_set)

lemma wf_store_ids:
  "wf_store d = (distinct (map a_id (authors d)) \<and>
                 (\<forall>b\<in>set (books d). b_author b \<in> set (map a_id (authors d))))"
  unfolding wf_store_def list_all_iff findById_None_ids by simp

lemma editAuthor_wf:
  assumes "wf_store d" "editAuthor M d args c = (r, d')"
  shows "wf_store d'"
proof -
  have "\<And>a'. wf_store (d\<lparr>authors := replace_author a' (authors d)\<rparr>)"
    using assms(1) unfolding wf_store_ids by (simp add: replace_author_ids del: set_map)
  then show ?thesis
    using assms by (auto simp: editAuthor_def Let_def split: option.splits if_splits)
qed

lemma createUser_wf:
  assumes "wf_store d" "createUser M d args = (r, d')"
  shows "wf_store d'"
  using assms
  by (auto simp: createUser_def Let_def wf_store_def Author_findById_def split: if_splits)

end
